theory Spec2Isabelle
  imports Complex_Main "HOL-Library.AList" "HOL-Library.Sublist"
begin

section \<open>Values of the host language\<close>

text \<open>
  The pool receives tool arguments as \<^verbatim>\<open>unknown\<close>: any value of the language. The
  variants below are the ones \<^verbatim>\<open>typeof\<close> tells apart. An object is the list of its own
  properties in enumeration order; an array is the list of its elements.
\<close>

datatype jsvalue =
    JUndefined
  | JNull
  | JBoolean bool
  | JNumber real
  | JString string
  | JBigInt int
  | JSymbol string
  | JFunction
  | JArray "jsvalue list"
  | JObject "(string \<times> jsvalue) list"

fun typeof :: "jsvalue \<Rightarrow> string" where
  "typeof JUndefined = ''undefined''"
| "typeof JNull = ''object''"
| "typeof (JBoolean b) = ''boolean''"
| "typeof (JNumber n) = ''number''"
| "typeof (JString s) = ''string''"
| "typeof (JBigInt i) = ''bigint''"
| "typeof (JSymbol d) = ''symbol''"
| "typeof JFunction = ''function''"
| "typeof (JArray xs) = ''object''"
| "typeof (JObject ps) = ''object''"

text \<open>A thrown value: an error object with its \<^verbatim>\<open>name\<close> and \<^verbatim>\<open>message\<close>.\<close>

datatype thrown = Thrown (err_name: string) (err_message: string)

text \<open>\<^verbatim>\<open>String(err)\<close> for an error object, as \<^verbatim>\<open>Error.prototype.toString\<close> computes it.\<close>

fun js_String :: "thrown \<Rightarrow> string" where
  "js_String (Thrown n m) = (if n = [] then m else if m = [] then n else n @ '': '' @ m)"

text \<open>\<^verbatim>\<open>new Error(message)\<close>.\<close>

definition Error :: "string \<Rightarrow> thrown" where
  "Error m = Thrown ''Error'' m"

text \<open>\<^verbatim>\<open>s.includes(sub)\<close>: scan \<open>s\<close> from the left for a position where \<open>sub\<close> starts.\<close>

fun str_includes :: "string \<Rightarrow> string \<Rightarrow> bool" where
  "str_includes [] sub = (sub = [])"
| "str_includes (c # cs) sub = (prefix sub (c # cs) \<or> str_includes cs sub)"

text \<open>
  Decimal digits of a natural number, for the index properties of an array. The first
  argument bounds the number of digits; \<open>n + 1\<close> is enough for \<open>n\<close>.
\<close>

fun digit_char :: "nat \<Rightarrow> char" where
  "digit_char n = char_of (48 + n)"

fun show_nat_aux :: "nat \<Rightarrow> nat \<Rightarrow> string \<Rightarrow> string" where
  "show_nat_aux 0 n acc = acc"
| "show_nat_aux (Suc fuel) n acc =
     (if n < 10 then digit_char n # acc
      else show_nat_aux fuel (n div 10) (digit_char (n mod 10) # acc))"

definition show_nat :: "nat \<Rightarrow> string" where
  "show_nat n = show_nat_aux (Suc n) n []"

text \<open>
  The own properties of a value. An array owns one property per index and \<^verbatim>\<open>length\<close>,
  and so does a string.
\<close>

fun own_properties :: "jsvalue \<Rightarrow> (string \<times> jsvalue) list" where
  "own_properties (JObject ps) = ps"
| "own_properties (JArray xs) =
     zip (map show_nat [0..<length xs]) xs @ [(''length'', JNumber (real (length xs)))]"
| "own_properties (JString s) =
     zip (map show_nat [0..<length s]) (map (\<lambda>c. JString [c]) s)
     @ [(''length'', JNumber (real (length s)))]"
| "own_properties v = []"

text \<open>
  \<^verbatim>\<open>field in obj\<close> and \<^verbatim>\<open>obj[field]\<close> look at the own properties first and then
  along the prototype chain. What a value inherits depends on the runtime; it is the
  parameter \<open>inh\<close> (for a plain object, the properties of \<^verbatim>\<open>Object.prototype\<close>). The
  pool applies \<^verbatim>\<open>in\<close> only to a value whose \<^verbatim>\<open>typeof\<close> is \<^verbatim>\<open>object\<close> and that is not \<^verbatim>\<open>null\<close>.
\<close>

definition js_in :: "(jsvalue \<Rightarrow> (string \<times> jsvalue) list) \<Rightarrow> string \<Rightarrow> jsvalue \<Rightarrow> bool" where
  "js_in inh field obj =
     (field \<in> set (map fst (own_properties obj)) \<or> field \<in> set (map fst (inh obj)))"

definition js_get :: "(jsvalue \<Rightarrow> (string \<times> jsvalue) list) \<Rightarrow> jsvalue \<Rightarrow> string \<Rightarrow> jsvalue" where
  "js_get inh obj field =
     (case map_of (own_properties obj) field of
        Some v \<Rightarrow> v
      | None \<Rightarrow> (case map_of (inh obj) field of Some v \<Rightarrow> v | None \<Rightarrow> JUndefined))"

text \<open>Truthiness: what \<^verbatim>\<open>if (v)\<close>, \<^verbatim>\<open>!v\<close> and \<^verbatim>\<open>a && b\<close> test.\<close>

fun truthy :: "jsvalue \<Rightarrow> bool" where
  "truthy JUndefined = False"
| "truthy JNull = False"
| "truthy (JBoolean b) = b"
| "truthy (JNumber n) = (n \<noteq> 0)"
| "truthy (JString s) = (s \<noteq> [])"
| "truthy (JBigInt i) = (i \<noteq> 0)"
| "truthy (JSymbol d) = True"
| "truthy JFunction = True"
| "truthy (JArray xs) = True"
| "truthy (JObject ps) = True"

text \<open>The error the language itself throws.\<close>

definition TypeError :: "string \<Rightarrow> thrown" where
  "TypeError m = Thrown ''TypeError'' m"

definition squote :: "string \<Rightarrow> string" where
  "squote s = CHR 0x27 # s @ [CHR 0x27]"

text \<open>
  The member access \<^verbatim>\<open>v.field\<close>. On \<^verbatim>\<open>null\<close> and \<^verbatim>\<open>undefined\<close> it throws a \<^verbatim>\<open>TypeError\<close>
  (the message is the one of V8); on every other value it reads the property.
\<close>

definition js_member ::
  "(jsvalue \<Rightarrow> (string \<times> jsvalue) list) \<Rightarrow> jsvalue \<Rightarrow> string \<Rightarrow> thrown + jsvalue" where
  "js_member inh v field =
     (if v = JNull then
        Inl (TypeError (''Cannot read properties of null (reading '' @ squote field @ '')''))
      else if v = JUndefined then
        Inl (TypeError (''Cannot read properties of undefined (reading '' @ squote field @ '')''))
      else Inr (js_get inh v field))"

text \<open>
  The values \<^verbatim>\<open>for (const x of v)\<close> visits: the elements of an array, the characters of
  a string. Any other value of this type is not iterable and the loop throws; \<open>what\<close> is
  the text of the expression, which the message quotes.
\<close>

fun js_iterate :: "string \<Rightarrow> jsvalue \<Rightarrow> thrown + jsvalue list" where
  "js_iterate what (JArray xs) = Inr xs"
| "js_iterate what (JString s) = Inr (map (\<lambda>c. JString [c]) s)"
| "js_iterate what v = Inl (TypeError (what @ '' is not iterable''))"

text \<open>
  \<^verbatim>\<open>Object.entries(v)\<close> for a value that is neither \<^verbatim>\<open>null\<close> nor \<^verbatim>\<open>undefined\<close>: the own
  enumerable properties. The \<^verbatim>\<open>length\<close> of an array or a string is not enumerable.
\<close>

fun js_entries :: "jsvalue \<Rightarrow> (string \<times> jsvalue) list" where
  "js_entries (JObject ps) = ps"
| "js_entries (JArray xs) = zip (map show_nat [0..<length xs]) xs"
| "js_entries (JString s) = zip (map show_nat [0..<length s]) (map (\<lambda>c. JString [c]) s)"
| "js_entries v = []"

text \<open>\<^verbatim>\<open>Array.prototype.join\<close> on strings.\<close>

fun join_with :: "string \<Rightarrow> string list \<Rightarrow> string" where
  "join_with sep [] = []"
| "join_with sep [x] = x"
| "join_with sep (x # y # ys) = x @ sep @ join_with sep (y # ys)"

section \<open>Server descriptors, sessions and the runtime\<close>

datatype TransportKind = Stdio | Http

text \<open>\<^verbatim>\<open>interface ServerConfig\<close>; the member \<^verbatim>\<open>args\<close> is \<open>command_args\<close> here.\<close>

record ServerConfig =
  name :: string
  cfg_transport :: TransportKind
  command :: "string option"
  command_args :: "string list option"
  cwd :: "string option"
  env :: "(string \<times> string) list option"
  url :: "string option"
  headers :: "(string \<times> string) list option"
  allowPrivateUrls :: "bool option"
  timeout :: "real option"

text \<open>
  The two transport classes. Every object a \<^verbatim>\<open>connect\<close> creates gets the number of that
  \<^verbatim>\<open>connect\<close> as its identity: the first component of a transport, the \<open>client\<close> of a
  session, and the address of the session in the store.
\<close>

datatype Transport =
    StreamableHTTPClientTransport nat string "(string \<times> string) list option"
  | StdioClientTransport nat "string option" "string list option" "string option"
      "(string \<times> string) list option"

fun transport_id :: "Transport \<Rightarrow> nat" where
  "transport_id (StreamableHTTPClientTransport i u h) = i"
| "transport_id (StdioClientTransport i c a d e) = i"

fun is_stdio :: "Transport \<Rightarrow> bool" where
  "is_stdio (StdioClientTransport i c a d e) = True"
| "is_stdio (StreamableHTTPClientTransport i u h) = False"

text \<open>\<^verbatim>\<open>interface ClientEntry\<close>.\<close>

record ClientEntry =
  config :: ServerConfig
  client :: nat
  transport :: Transport
  connected :: bool
  toolSchemas :: "string \<rightharpoonup> jsvalue"

text \<open>
  What the protocol library returns: discovered tools and call results. The input schema
  of a tool is the value the server sent, \<^verbatim>\<open>undefined\<close> when it sent none.
\<close>

record Tool =
  tool_name :: string
  description :: "string option"
  inputSchema :: jsvalue

record ContentItem =
  item_text :: "string option"
  item_data :: "string option"

record CallToolResult =
  content :: "ContentItem list option"
  isError :: "bool option"

text \<open>
  A transport reports an error or its closure through a callback, at any moment the pool
  is suspended in an \<^verbatim>\<open>await\<close>. A signal names the transport that reports.
\<close>

datatype signal = OnError nat thrown | OnClose nat

text \<open>
  An awaited operation of the protocol library, as a function of the state \<open>'w\<close> of
  everything outside the pool: the signals that arrive while the pool waits, the outcome
  (\<open>Inl\<close> a rejection), and the new outside state.
\<close>

type_synonym ('a, 'w) effect = "'w \<Rightarrow> signal list \<times> (thrown + 'a) \<times> 'w"

text \<open>
  The runtime: the constructor \<^verbatim>\<open>new URL\<close>, the awaited operations of the library, what a
  value inherits, and the two conversions of the language that depend on more than the
  value as it is modelled here: \<open>to_string\<close>, the text of a value that is not a string
  inside a template literal, and \<open>in_other\<close>, the operator \<^verbatim>\<open>in\<close> with a left operand that
  is not a string.
\<close>

record 'w runtime =
  new_URL :: "string option \<Rightarrow> thrown + string"
  client_connect :: "nat \<Rightarrow> Transport \<Rightarrow> (unit, 'w) effect"
  client_listTools :: "nat \<Rightarrow> (Tool list, 'w) effect"
  client_callTool :: "nat \<Rightarrow> string \<Rightarrow> jsvalue \<Rightarrow> (CallToolResult, 'w) effect"
  transport_close :: "nat \<Rightarrow> (unit, 'w) effect"
  inherited :: "jsvalue \<Rightarrow> (string \<times> jsvalue) list"
  to_string :: "jsvalue \<Rightarrow> thrown + string"
  in_other :: "jsvalue \<Rightarrow> jsvalue \<Rightarrow> thrown + bool"

text \<open>What the pool does that is visible outside: console lines and requests to the library.\<close>

datatype level = LogLevel | WarnLevel | ErrorLevel

datatype event =
    Console level string "thrown option"
  | ClientConnect nat Transport
  | ClientListTools nat
  | ClientCallTool nat string jsvalue
  | TransportClose nat

fun is_console :: "event \<Rightarrow> bool" where
  "is_console (Console l m e) = True"
| "is_console ev = False"

text \<open>The requests made to the library, in order, without the console lines.\<close>

definition requests :: "event list \<Rightarrow> event list" where
  "requests evs = filter (\<lambda>ev. \<not> is_console ev) evs"

text \<open>
  \<^verbatim>\<open>class McpClientPool\<close>. \<open>clients\<close> is the \<^verbatim>\<open>Map\<close> in insertion order, from a server
  name to the address of its session object; \<open>heap\<close> holds the session objects;
  \<open>listeners\<close> says which transports have the two callbacks of \<^verbatim>\<open>connect\<close> and for which
  server name; \<open>trace\<close> is everything done so far.
\<close>

record 'w pool =
  clients :: "(string \<times> nat) list"
  heap :: "nat \<Rightarrow> ClientEntry"
  listeners :: "nat \<rightharpoonup> string"
  next_id :: nat
  world :: 'w
  trace :: "event list"

definition emit :: "event \<Rightarrow> 'w pool \<Rightarrow> 'w pool" where
  "emit ev s = s\<lparr>trace := trace s @ [ev]\<rparr>"

definition markDisconnected :: "string \<Rightarrow> 'w pool \<Rightarrow> 'w pool" where
  "markDisconnected serverName s =
     (case map_of (clients s) serverName of
        None \<Rightarrow> s
      | Some r \<Rightarrow> s\<lparr>heap := (heap s)(r := (heap s r)\<lparr>connected := False\<rparr>)\<rparr>)"

text \<open>The callbacks \<^verbatim>\<open>transport.onerror\<close> and \<^verbatim>\<open>transport.onclose\<close> set by \<^verbatim>\<open>connect\<close>.\<close>

fun deliver_signal :: "signal \<Rightarrow> 'w pool \<Rightarrow> 'w pool" where
  "deliver_signal (OnError t err) s =
     (case listeners s t of
        None \<Rightarrow> s
      | Some n \<Rightarrow>
          markDisconnected n
            (emit (Console ErrorLevel (''[mcp-adapter] '' @ n @ '' error:'') (Some err)) s))"
| "deliver_signal (OnClose t) s =
     (case listeners s t of
        None \<Rightarrow> s
      | Some n \<Rightarrow>
          markDisconnected n
            (emit (Console LogLevel (''[mcp-adapter] '' @ n @ '' disconnected'') None) s))"

fun deliver :: "signal list \<Rightarrow> 'w pool \<Rightarrow> 'w pool" where
  "deliver [] s = s"
| "deliver (sig # sigs) s = deliver sigs (deliver_signal sig s)"

text \<open>
  \<^verbatim>\<open>await\<close>: the request is recorded, the outside world moves, the callbacks of the signals
  that arrived meanwhile run, and the pool resumes with the outcome. The operations below
  model one caller at a time: while an operation waits, transport callbacks run and
  nothing else touches the pool. The parts of \<^verbatim>\<open>callTool\<close> and \<^verbatim>\<open>reconnect\<close> between two
  waits are definitions of their own (\<open>attempt\<close>, \<open>callTool_catch\<close>, \<open>teardown\<close>), so that what
  they do in a pool another caller changed meanwhile can be stated as well.
\<close>

definition await :: "event \<Rightarrow> ('a, 'w) effect \<Rightarrow> 'w pool \<Rightarrow> (thrown + 'a) \<times> 'w pool" where
  "await ev eff s =
     (case eff (world s) of
        (sigs, out, w) \<Rightarrow> (out, deliver sigs (s\<lparr>world := w, trace := trace s @ [ev]\<rparr>)))"

section \<open>Tool schemas and the advisory check\<close>

text \<open>
  \<^verbatim>\<open>interface ToolSchema { type?: string; properties?: Record<string, { type?: string }>;
  required?: string[] }\<close>. An optional member is an \<open>option\<close>; the record of declared
  fields is the list of its entries in the order \<^verbatim>\<open>Object.entries\<close> yields them.
\<close>

record PropSchema =
  prop_type :: "string option"

record ToolSchema =
  schema_type :: "string option"
  properties :: "(string \<times> PropSchema) list option"
  required :: "string list option"

text \<open>
  The interface describes a value; it is not checked. \<^verbatim>\<open>listTools\<close> stores
  \<^verbatim>\<open>tool.inputSchema as ToolSchema\<close>, whatever the server sent, and the check reads the
  members of that value. The values that do have the shape of the interface are these.
\<close>

definition of_PropSchema :: "PropSchema \<Rightarrow> jsvalue" where
  "of_PropSchema p = JObject (case prop_type p of None \<Rightarrow> [] | Some t \<Rightarrow> [(''type'', JString t)])"

definition of_ToolSchema :: "ToolSchema \<Rightarrow> jsvalue" where
  "of_ToolSchema sc =
     JObject
       ((case schema_type sc of None \<Rightarrow> [] | Some t \<Rightarrow> [(''type'', JString t)])
        @ (case properties sc of
             None \<Rightarrow> []
           | Some ps \<Rightarrow> [(''properties'', JObject (map (\<lambda>(f, p). (f, of_PropSchema p)) ps))])
        @ (case required sc of None \<Rightarrow> [] | Some ns \<Rightarrow> [(''required'', JArray (map JString ns))]))"

definition dquote :: "string \<Rightarrow> string" where
  "dquote s = CHR 0x22 # s @ [CHR 0x22]"

text \<open>The two messages of the check, without the server/tool prefix.\<close>

definition missing_msg :: "string \<Rightarrow> string" where
  "missing_msg field = ''missing required field '' @ dquote field"

definition mismatch_msg :: "string \<Rightarrow> string \<Rightarrow> string \<Rightarrow> string" where
  "mismatch_msg field declared actual =
     ''field '' @ dquote field @ '' expected '' @ declared @ '', got '' @ actual"

text \<open>
  A value inside a template literal, and a value on the left of \<^verbatim>\<open>in\<close>. For a string
  both are what the definitions above say; for any other value the runtime converts.
\<close>

definition template :: "'w runtime \<Rightarrow> jsvalue \<Rightarrow> thrown + string" where
  "template rt v = (case v of JString s \<Rightarrow> Inr s | _ \<Rightarrow> to_string rt v)"

definition js_in_value :: "'w runtime \<Rightarrow> jsvalue \<Rightarrow> jsvalue \<Rightarrow> thrown + bool" where
  "js_in_value rt key obj =
     (case key of JString k \<Rightarrow> Inr (js_in (inherited rt) k obj) | _ \<Rightarrow> in_other rt key obj)"

text \<open>
  The check returns nothing, writes to the console, and can throw. Its value here is the
  list of lines it has handed to \<^verbatim>\<open>console.warn\<close>, in order, and how it ended: \<open>Inr ()\<close>
  when it returned, \<open>Inl\<close> what it threw.

  The body of the loop over \<^verbatim>\<open>schema.required\<close>: a warning for a listed name that is not
  in \<open>obj\<close>.
\<close>

definition required_warning ::
  "'w runtime \<Rightarrow> string \<Rightarrow> jsvalue \<Rightarrow> jsvalue \<Rightarrow> string list \<times> (thrown + unit)" where
  "required_warning rt pre obj field =
     (case js_in_value rt field obj of
        Inl e \<Rightarrow> ([], Inl e)
      | Inr found \<Rightarrow>
          if \<not> found then
            (case template rt field of
               Inl e \<Rightarrow> ([], Inl e)
             | Inr f \<Rightarrow> ([pre @ '': '' @ missing_msg f], Inr ()))
          else ([], Inr ()))"

fun required_warnings ::
  "'w runtime \<Rightarrow> string \<Rightarrow> jsvalue \<Rightarrow> jsvalue list \<Rightarrow> string list \<times> (thrown + unit)" where
  "required_warnings rt pre obj [] = ([], Inr ())"
| "required_warnings rt pre obj (field # rest) =
     (case required_warning rt pre obj field of
        (ms, Inl e) \<Rightarrow> (ms, Inl e)
      | (ms, Inr u) \<Rightarrow>
          (case required_warnings rt pre obj rest of (ms', out) \<Rightarrow> (ms @ ms', out)))"

text \<open>
  The body of the loop over \<^verbatim>\<open>Object.entries(schema.properties)\<close>. The condition is
  evaluated from the left: \<^verbatim>\<open>prop.type\<close> is read only when the field is in \<open>obj\<close>, and
  reading it throws when \<open>prop\<close> is \<^verbatim>\<open>null\<close>. A declared type that is absent or otherwise
  falsy switches the test off.
\<close>

definition property_warning ::
  "'w runtime \<Rightarrow> string \<Rightarrow> jsvalue \<Rightarrow> string \<times> jsvalue \<Rightarrow> string list \<times> (thrown + unit)" where
  "property_warning rt pre obj entry =
     (case entry of (field, prop) \<Rightarrow>
        if \<not> js_in (inherited rt) field obj then ([], Inr ())
        else
          (case js_member (inherited rt) prop ''type'' of
             Inl e \<Rightarrow> ([], Inl e)
           | Inr ty \<Rightarrow>
               if truthy ty \<and> js_get (inherited rt) obj field \<noteq> JNull
                  \<and> js_get (inherited rt) obj field \<noteq> JUndefined
               then
                 (let actual = typeof (js_get (inherited rt) obj field);
                      expected = (if ty = JString ''integer'' then JString ''number'' else ty)
                  in if JString actual \<noteq> expected then
                       (case template rt ty of
                          Inl e \<Rightarrow> ([], Inl e)
                        | Inr declared \<Rightarrow>
                            ([pre @ '': '' @ mismatch_msg field declared actual], Inr ()))
                     else ([], Inr ()))
               else ([], Inr ())))"

fun property_warnings ::
  "'w runtime \<Rightarrow> string \<Rightarrow> jsvalue \<Rightarrow> (string \<times> jsvalue) list \<Rightarrow> string list \<times> (thrown + unit)" where
  "property_warnings rt pre obj [] = ([], Inr ())"
| "property_warnings rt pre obj (entry # entries) =
     (case property_warning rt pre obj entry of
        (ms, Inl e) \<Rightarrow> (ms, Inl e)
      | (ms, Inr u) \<Rightarrow>
          (case property_warnings rt pre obj entries of (ms', out) \<Rightarrow> (ms @ ms', out)))"

text \<open>The two \<^verbatim>\<open>if\<close> statements of the check, with their loops.\<close>

definition check_required ::
  "'w runtime \<Rightarrow> string \<Rightarrow> jsvalue \<Rightarrow> jsvalue \<Rightarrow> string list \<times> (thrown + unit)" where
  "check_required rt pre obj schema =
     (case js_member (inherited rt) schema ''required'' of
        Inl e \<Rightarrow> ([], Inl e)
      | Inr req \<Rightarrow>
          if truthy req then
            (case js_iterate ''schema.required'' req of
               Inl e \<Rightarrow> ([], Inl e)
             | Inr names \<Rightarrow> required_warnings rt pre obj names)
          else ([], Inr ()))"

definition check_properties ::
  "'w runtime \<Rightarrow> string \<Rightarrow> jsvalue \<Rightarrow> jsvalue \<Rightarrow> string list \<times> (thrown + unit)" where
  "check_properties rt pre obj schema =
     (case js_member (inherited rt) schema ''properties'' of
        Inl e \<Rightarrow> ([], Inl e)
      | Inr props \<Rightarrow>
          if truthy props then property_warnings rt pre obj (js_entries props)
          else ([], Inr ()))"

text \<open>
  \<^verbatim>\<open>warnOnSchemaViolations\<close>. The schema table is the \<^verbatim>\<open>Map\<close> of the session;
  \<^verbatim>\<open>schemas.get\<close> of a tool without an entry is \<^verbatim>\<open>undefined\<close>.
\<close>

definition warnOnSchemaViolations ::
  "'w runtime \<Rightarrow> string \<Rightarrow> string \<Rightarrow> jsvalue \<Rightarrow> (string \<rightharpoonup> jsvalue)
     \<Rightarrow> string list \<times> (thrown + unit)" where
  "warnOnSchemaViolations rt serverName toolName args schemas =
     (let schema = (case schemas toolName of None \<Rightarrow> JUndefined | Some sc \<Rightarrow> sc)
      in if \<not> truthy schema \<or> typeof args \<noteq> ''object'' \<or> args = JNull then ([], Inr ())
         else
           (let obj = args;
                pre = ''[mcp-adapter] '' @ serverName @ ''/'' @ toolName
            in case check_required rt pre obj schema of
                 (ms, Inl e) \<Rightarrow> (ms, Inl e)
               | (ms, Inr u) \<Rightarrow>
                   (case check_properties rt pre obj schema of (ms', out) \<Rightarrow> (ms @ ms', out))))"

section \<open>The connection pool\<close>

definition createTransport :: "'w runtime \<Rightarrow> nat \<Rightarrow> ServerConfig \<Rightarrow> thrown + Transport" where
  "createTransport rt i cfg =
     (if cfg_transport cfg = Http then
        (case new_URL rt (url cfg) of
           Inl e \<Rightarrow> Inl e
         | Inr u \<Rightarrow> Inr (StreamableHTTPClientTransport i u (headers cfg)))
      else Inr (StdioClientTransport i (command cfg) (command_args cfg) (cwd cfg) (env cfg)))"

definition connect :: "'w runtime \<Rightarrow> ServerConfig \<Rightarrow> 'w pool \<Rightarrow> (thrown + nat) \<times> 'w pool" where
  "connect rt cfg s =
     (let i = next_id s; s0 = s\<lparr>next_id := Suc i\<rparr>
      in case createTransport rt i cfg of
           Inl e \<Rightarrow> (Inl e, s0)
         | Inr tr \<Rightarrow>
             (case await (ClientConnect i tr) (client_connect rt i tr) s0 of
                (Inl e, s1) \<Rightarrow> (Inl e, s1)
              | (Inr u, s1) \<Rightarrow>
                  (let s2 = (if is_stdio tr
                             then s1\<lparr>listeners := (listeners s1)(i \<mapsto> name cfg)\<rparr> else s1)
                   in (Inr i,
                       s2\<lparr>clients := AList.update (name cfg) i (clients s2),
                          heap := (heap s2)(i := \<lparr>config = cfg, client = i, transport = tr,
                                                   connected = True, toolSchemas = Map.empty\<rparr>)\<rparr>))))"

text \<open>
  The loop of \<^verbatim>\<open>listTools\<close>: it stores the input schema of every tool that has one, as
  it came.
\<close>

fun store_schemas :: "Tool list \<Rightarrow> (string \<rightharpoonup> jsvalue) \<Rightarrow> (string \<rightharpoonup> jsvalue)" where
  "store_schemas [] m = m"
| "store_schemas (t # ts) m =
     store_schemas ts (if truthy (inputSchema t) then m(tool_name t \<mapsto> inputSchema t) else m)"

definition listTools :: "'w runtime \<Rightarrow> string \<Rightarrow> 'w pool \<Rightarrow> (thrown + Tool list) \<times> 'w pool" where
  "listTools rt serverName s =
     (case map_of (clients s) serverName of
        None \<Rightarrow> (Inl (Error (''Unknown server: '' @ serverName)), s)
      | Some r \<Rightarrow>
          (case await (ClientListTools (client (heap s r)))
                  (client_listTools rt (client (heap s r))) s of
             (Inl e, s1) \<Rightarrow> (Inl e, s1)
           | (Inr tools, s1) \<Rightarrow>
               (Inr tools,
                s1\<lparr>heap := (heap s1)(r := (heap s1 r)
                      \<lparr>toolSchemas := store_schemas tools (toolSchemas (heap s1 r))\<rparr>)\<rparr>)))"

definition isConnectionError :: "thrown \<Rightarrow> bool" where
  "isConnectionError err =
     (let msg = js_String err
      in str_includes msg ''closed'' \<or> str_includes msg ''ECONNREFUSED''
         \<or> str_includes msg ''EPIPE'' \<or> str_includes msg ''ETIMEDOUT''
         \<or> str_includes msg ''ECONNRESET'' \<or> str_includes msg ''ENOTFOUND''
         \<or> str_includes msg ''EHOSTUNREACH'')"

text \<open>The substrings \<^verbatim>\<open>isConnectionError\<close> looks for, in its order.\<close>

definition connection_markers :: "string list" where
  "connection_markers =
     [''closed'', ''ECONNREFUSED'', ''EPIPE'', ''ETIMEDOUT'', ''ECONNRESET'', ''ENOTFOUND'',
      ''EHOSTUNREACH'']"

text \<open>
  The first half of \<^verbatim>\<open>reconnect\<close>, for the session object at \<open>r\<close>: the transport is
  closed, a failure of that is logged and dropped, and the entry leaves the map.
\<close>

definition teardown :: "'w runtime \<Rightarrow> string \<Rightarrow> nat \<Rightarrow> 'w pool \<Rightarrow> 'w pool" where
  "teardown rt serverName r s =
     (let s0 = emit (Console LogLevel (''[mcp-adapter] Reconnecting to '' @ serverName @ ''...'') None) s
      in case await (TransportClose (transport_id (transport (heap s0 r))))
                (transport_close rt (transport_id (transport (heap s0 r)))) s0 of
           (out, s1) \<Rightarrow>
             (let s2 = (case out of
                          Inl err \<Rightarrow>
                            emit (Console WarnLevel
                                    (''[mcp-adapter] '' @ serverName @ '' close error during reconnect:'')
                                    (Some err)) s1
                        | Inr u \<Rightarrow> s1)
              in s2\<lparr>clients := AList.delete serverName (clients s2)\<rparr>))"

definition reconnect :: "'w runtime \<Rightarrow> string \<Rightarrow> 'w pool \<Rightarrow> (thrown + unit) \<times> 'w pool" where
  "reconnect rt serverName s =
     (case map_of (clients s) serverName of
        None \<Rightarrow> (Inr (), s)
      | Some r \<Rightarrow>
          (let s3 = teardown rt serverName r s
           in case connect rt (config (heap s3 r)) s3 of
                (Inl e, s4) \<Rightarrow> (Inl e, s4)
              | (Inr c, s4) \<Rightarrow>
                  (Inr (), emit (Console LogLevel (''[mcp-adapter] Reconnected to '' @ serverName) None) s4)))"

text \<open>One \<^verbatim>\<open>client.callTool\<close> request on the session object at \<open>r\<close>.\<close>

definition attempt ::
  "'w runtime \<Rightarrow> string \<Rightarrow> jsvalue \<Rightarrow> nat \<Rightarrow> 'w pool \<Rightarrow> (thrown + CallToolResult) \<times> 'w pool" where
  "attempt rt toolName args r s =
     await (ClientCallTool (client (heap s r)) toolName args)
       (client_callTool rt (client (heap s r)) toolName args) s"

text \<open>The \<^verbatim>\<open>catch\<close> block of \<^verbatim>\<open>callTool\<close>; \<open>r\<close> is the session the failed call went to.\<close>

definition callTool_catch ::
  "'w runtime \<Rightarrow> string \<Rightarrow> string \<Rightarrow> jsvalue \<Rightarrow> nat \<Rightarrow> thrown \<Rightarrow> 'w pool
     \<Rightarrow> (thrown + CallToolResult) \<times> 'w pool" where
  "callTool_catch rt serverName toolName args r err s =
     (if \<not> connected (heap s r) \<or> isConnectionError err then
        (case reconnect rt serverName s of
           (Inl e, s2) \<Rightarrow> (Inl e, s2)
         | (Inr u, s2) \<Rightarrow>
             (case map_of (clients s2) serverName of
                None \<Rightarrow> (Inl (Error (''Failed to reconnect to '' @ serverName)), s2)
              | Some r' \<Rightarrow> attempt rt toolName args r' s2))
      else (Inl err, s))"

text \<open>The console lines of the advisory check.\<close>

fun warn_all :: "string list \<Rightarrow> 'w pool \<Rightarrow> 'w pool" where
  "warn_all [] s = s"
| "warn_all (m # ms) s = warn_all ms (emit (Console WarnLevel m None) s)"

text \<open>
  The call of the check in \<^verbatim>\<open>callTool\<close>, on the schema table of the session object at
  \<open>r\<close>: its lines reach the console, and it returns or throws.
\<close>

definition checked ::
  "'w runtime \<Rightarrow> string \<Rightarrow> string \<Rightarrow> jsvalue \<Rightarrow> nat \<Rightarrow> 'w pool \<Rightarrow> (thrown + unit) \<times> 'w pool" where
  "checked rt serverName toolName args r s =
     (case warnOnSchemaViolations rt serverName toolName args (toolSchemas (heap s r)) of
        (ms, out) \<Rightarrow> (out, warn_all ms s))"

text \<open>
  \<^verbatim>\<open>callTool\<close>. The check stands before the \<^verbatim>\<open>try\<close>: what it throws leaves \<^verbatim>\<open>callTool\<close>
  at once.
\<close>

definition callTool ::
  "'w runtime \<Rightarrow> string \<Rightarrow> string \<Rightarrow> jsvalue \<Rightarrow> 'w pool \<Rightarrow> (thrown + CallToolResult) \<times> 'w pool" where
  "callTool rt serverName toolName args s =
     (case map_of (clients s) serverName of
        None \<Rightarrow> (Inl (Error (''Unknown server: '' @ serverName)), s)
      | Some r \<Rightarrow>
          (case checked rt serverName toolName args r s of
             (Inl e, s0) \<Rightarrow> (Inl e, s0)
           | (Inr u, s0) \<Rightarrow>
               (case attempt rt toolName args r s0 of
                  (Inr res, s1) \<Rightarrow> (Inr res, s1)
                | (Inl err, s1) \<Rightarrow> callTool_catch rt serverName toolName args r err s1)))"

record Status =
  status_connected :: bool

definition getStatus :: "string \<Rightarrow> 'w pool \<Rightarrow> Status" where
  "getStatus serverName s =
     \<lparr>status_connected =
        (case map_of (clients s) serverName of None \<Rightarrow> False | Some r \<Rightarrow> connected (heap s r))\<rparr>"

definition close :: "'w runtime \<Rightarrow> string \<Rightarrow> 'w pool \<Rightarrow> (thrown + unit) \<times> 'w pool" where
  "close rt serverName s =
     (case map_of (clients s) serverName of
        None \<Rightarrow> (Inr (), s)
      | Some r \<Rightarrow>
          (case await (TransportClose (transport_id (transport (heap s r))))
                  (transport_close rt (transport_id (transport (heap s r)))) s of
             (out, s1) \<Rightarrow>
               (let s2 = (case out of Inl err \<Rightarrow> s1 | Inr u \<Rightarrow> s1)
                in (Inr (), s2\<lparr>clients := AList.delete serverName (clients s2)\<rparr>))))"

text \<open>
  \<^verbatim>\<open>closeAll\<close> walks the keys of the map. The iterator of a \<^verbatim>\<open>Map\<close> is live, and each
  \<^verbatim>\<open>close\<close> removes only the key just visited, so the walk visits the keys the map had
  at the start, in order. A \<^verbatim>\<open>close\<close> that threw would end the loop.
\<close>

fun closeAll_loop :: "'w runtime \<Rightarrow> string list \<Rightarrow> 'w pool \<Rightarrow> (thrown + unit) \<times> 'w pool" where
  "closeAll_loop rt [] s = (Inr (), s)"
| "closeAll_loop rt (n # ns) s =
     (case close rt n s of
        (Inl e, s1) \<Rightarrow> (Inl e, s1)
      | (Inr u, s1) \<Rightarrow> closeAll_loop rt ns s1)"

definition closeAll :: "'w runtime \<Rightarrow> 'w pool \<Rightarrow> (thrown + unit) \<times> 'w pool" where
  "closeAll rt s = closeAll_loop rt (map fst (clients s)) s"

text \<open>
  \<^verbatim>\<open>new McpClientPool()\<close> in the outside state \<open>w\<close>. No session object exists yet; the
  store holds a placeholder at every address, which nothing reads before \<^verbatim>\<open>connect\<close> has
  written a session there.
\<close>

definition vacant :: ClientEntry where
  "vacant =
     \<lparr>config = \<lparr>name = [], cfg_transport = Stdio, command = None, command_args = None,
                 cwd = None, env = None, url = None, headers = None, allowPrivateUrls = None,
                 timeout = None\<rparr>,
      client = 0, transport = StdioClientTransport 0 None None None None, connected = False,
      toolSchemas = Map.empty\<rparr>"

definition new_pool :: "'w \<Rightarrow> 'w pool" where
  "new_pool w =
     \<lparr>clients = [], heap = (\<lambda>r. vacant), listeners = Map.empty, next_id = 0, world = w,
      trace = []\<rparr>"

section \<open>The entry points registered with the host\<close>

text \<open>The value an entry point returns: \<^verbatim>\<open>{ content: [{ type: "text", text }], isError }\<close>.\<close>

record ResponseItem =
  resp_type :: string
  resp_text :: string

record Response =
  resp_content :: "ResponseItem list"
  resp_isError :: "bool option"

text \<open>The reshaping both entry points apply to the result of \<^verbatim>\<open>pool.callTool\<close>.\<close>

definition reshape :: "CallToolResult \<Rightarrow> Response" where
  "reshape result =
     (let txt = (case content result of
                   None \<Rightarrow> []
                 | Some items \<Rightarrow>
                     join_with [CHR 0x0A]
                       (map (\<lambda>c. case item_text c of
                                    Some t \<Rightarrow> t
                                  | None \<Rightarrow> (case item_data c of Some d \<Rightarrow> d | None \<Rightarrow> []))
                          items))
      in \<lparr>resp_content = [\<lparr>resp_type = ''text'', resp_text = txt\<rparr>],
          resp_isError = isError result\<rparr>)"

text \<open>\<^verbatim>\<open>execute\<close> of a tool registered from the cache (phase 1 of the plugin).\<close>

definition execute_cached ::
  "'w runtime \<Rightarrow> ServerConfig \<Rightarrow> string \<Rightarrow> jsvalue \<Rightarrow> 'w pool \<Rightarrow> (thrown + Response) \<times> 'w pool" where
  "execute_cached rt server toolName params s =
     (case (if \<not> status_connected (getStatus (name server) s) then
              (let s0 = emit (Console LogLevel
                                (''[mcp-adapter] Lazy-connecting to '' @ name server @ ''...'') None) s
               in case connect rt server s0 of
                    (Inl e, s1) \<Rightarrow> (Inl e, s1)
                  | (Inr c, s1) \<Rightarrow>
                      (case listTools rt (name server) s1 of
                         (Inl e, s2) \<Rightarrow> (Inl e, s2)
                       | (Inr tools, s2) \<Rightarrow> (Inr (), s2)))
            else (Inr (), s)) of
        (Inl e, s3) \<Rightarrow> (Inl e, s3)
      | (Inr u, s3) \<Rightarrow>
          (case callTool rt (name server) toolName params s3 of
             (Inl e, s4) \<Rightarrow> (Inl e, s4)
           | (Inr result, s4) \<Rightarrow> (Inr (reshape result), s4)))"

text \<open>\<^verbatim>\<open>execute\<close> of a tool registered by the service after discovery (phase 2).\<close>

definition execute_service ::
  "'w runtime \<Rightarrow> ServerConfig \<Rightarrow> string \<Rightarrow> jsvalue \<Rightarrow> 'w pool \<Rightarrow> (thrown + Response) \<times> 'w pool" where
  "execute_service rt server toolName params s =
     (case callTool rt (name server) toolName params s of
        (Inl e, s4) \<Rightarrow> (Inl e, s4)
      | (Inr result, s4) \<Rightarrow> (Inr (reshape result), s4))"

section \<open>Reachable pools\<close>

text \<open>
  What \<^verbatim>\<open>connect\<close> establishes for every entry of the map and every other operation
  keeps: a name occurs once, the session object was created by an earlier \<^verbatim>\<open>connect\<close>,
  it is stored under the name of its own descriptor, and it holds the client and the
  transport created with it.
\<close>

definition wf_pool :: "'w pool \<Rightarrow> bool" where
  "wf_pool s =
     (distinct (map fst (clients s))
      \<and> list_all (\<lambda>(n, r). r < next_id s \<and> name (config (heap s r)) = n
                     \<and> client (heap s r) = r \<and> transport_id (transport (heap s r)) = r)
          (clients s))"

text \<open>
  Two pools are alike when they differ at most in the console lines written so far and
  in the schema tables of their sessions.
\<close>

definition alike :: "'w pool \<Rightarrow> 'w pool \<Rightarrow> bool" where
  "alike s t =
     (clients s = clients t \<and> listeners s = listeners t \<and> next_id s = next_id t
      \<and> world s = world t \<and> requests (trace s) = requests (trace t)
      \<and> (\<forall>q. config (heap s q) = config (heap t q) \<and> client (heap s q) = client (heap t q)
               \<and> transport (heap s q) = transport (heap t q)
               \<and> connected (heap s q) = connected (heap t q)))"

section \<open>A scripted runtime for concrete runs\<close>

text \<open>
  What the values of the platform inherit, for the concrete runs below. A plain object
  inherits the properties of \<^verbatim>\<open>Object.prototype\<close>; an array those of \<^verbatim>\<open>Array.prototype\<close>
  and, behind it, of \<^verbatim>\<open>Object.prototype\<close>. The pool looks a name up in a value that is not
  an object or an array only when it reads \<^verbatim>\<open>required\<close>, \<^verbatim>\<open>properties\<close> or \<^verbatim>\<open>type\<close> from a
  part of a schema, and no prototype of the platform has a property of these names; for
  such a value the table lists what every value inherits from \<^verbatim>\<open>Object.prototype\<close>.
\<close>

definition object_prototype_names :: "string list" where
  "object_prototype_names =
     [''constructor'', ''hasOwnProperty'', ''isPrototypeOf'', ''propertyIsEnumerable'',
      ''toLocaleString'', ''toString'', ''valueOf'', ''__defineGetter__'',
      ''__defineSetter__'', ''__lookupGetter__'', ''__lookupSetter__'']"

definition array_prototype_names :: "string list" where
  "array_prototype_names =
     [''at'', ''concat'', ''constructor'', ''copyWithin'', ''entries'', ''every'', ''fill'',
      ''filter'', ''find'', ''findIndex'', ''findLast'', ''findLastIndex'', ''flat'',
      ''flatMap'', ''forEach'', ''includes'', ''indexOf'', ''join'', ''keys'', ''lastIndexOf'',
      ''map'', ''pop'', ''push'', ''reduce'', ''reduceRight'', ''reverse'', ''shift'', ''slice'',
      ''some'', ''sort'', ''splice'', ''toLocaleString'', ''toReversed'', ''toSorted'',
      ''toSpliced'', ''toString'', ''unshift'', ''values'', ''with'']"

definition standard_inherited :: "jsvalue \<Rightarrow> (string \<times> jsvalue) list" where
  "standard_inherited v =
     (case v of
        JArray xs \<Rightarrow>
          map (\<lambda>n. (n, JFunction)) (array_prototype_names @ object_prototype_names)
          @ [(''__proto__'', JArray [])]
      | _ \<Rightarrow> map (\<lambda>n. (n, JFunction)) object_prototype_names @ [(''__proto__'', JObject [])])"

text \<open>
  The conversion of a value to a string, as a template literal and a property key need
  it. A symbol cannot be converted. An array is the texts of its elements joined by
  commas, with nothing for \<^verbatim>\<open>null\<close> and \<^verbatim>\<open>undefined\<close>. A plain object is converted by the
  \<^verbatim>\<open>toString\<close> it inherits unless it has an own property of that name; an own property
  that is not a function leaves the object without a conversion. The table is exact for
  the values a JSON text denotes, with numbers that are integers below \<open>10\<^sup>2\<^sup>1\<close> in magnitude
  or decimal fractions of at most 15 significant digits and magnitude at least \<open>10\<^sup>-\<^sup>6\<close>;
  the text of a function is the one of a built-in function.
\<close>

definition show_int :: "int \<Rightarrow> string" where
  "show_int i = (if i < 0 then CHR ''-'' # show_nat (nat (- i)) else show_nat (nat i))"

fun show_fraction :: "nat \<Rightarrow> real \<Rightarrow> string" where
  "show_fraction 0 r = []"
| "show_fraction (Suc k) r =
     (if r = 0 then []
      else digit_char (nat \<lfloor>r * 10\<rfloor>) # show_fraction k (r * 10 - real_of_int \<lfloor>r * 10\<rfloor>))"

definition show_number :: "real \<Rightarrow> string" where
  "show_number r =
     (if r = real_of_int \<lfloor>r\<rfloor> then show_int \<lfloor>r\<rfloor>
      else (if r < 0 then ''-'' else [])
           @ show_nat (nat \<lfloor>\<bar>r\<bar>\<rfloor>) @ ''.'' @ show_fraction 20 (\<bar>r\<bar> - real_of_int \<lfloor>\<bar>r\<bar>\<rfloor>))"

fun collect :: "(thrown + 'a) list \<Rightarrow> thrown + 'a list" where
  "collect [] = Inr []"
| "collect (x # xs) =
     (case x of
        Inl e \<Rightarrow> Inl e
      | Inr v \<Rightarrow> (case collect xs of Inl e \<Rightarrow> Inl e | Inr vs \<Rightarrow> Inr (v # vs)))"

fun standard_to_string :: "jsvalue \<Rightarrow> thrown + string" where
  "standard_to_string JUndefined = Inr ''undefined''"
| "standard_to_string JNull = Inr ''null''"
| "standard_to_string (JBoolean b) = Inr (if b then ''true'' else ''false'')"
| "standard_to_string (JNumber n) = Inr (show_number n)"
| "standard_to_string (JString s) = Inr s"
| "standard_to_string (JBigInt i) = Inr (show_int i)"
| "standard_to_string (JSymbol d) = Inl (TypeError ''Cannot convert a Symbol value to a string'')"
| "standard_to_string JFunction = Inr ''function () { [native code] }''"
| "standard_to_string (JArray xs) =
     (case collect (map (\<lambda>x. if x = JNull \<or> x = JUndefined then Inr []
                               else standard_to_string x) xs) of
        Inl e \<Rightarrow> Inl e
      | Inr ss \<Rightarrow> Inr (join_with '','' ss))"
| "standard_to_string (JObject ps) =
     (case map_of ps ''toString'' of
        None \<Rightarrow> Inr ''[object Object]''
      | Some f \<Rightarrow> Inl (TypeError ''Cannot convert object to primitive value''))"

text \<open>
  \<^verbatim>\<open>key in obj\<close> for a key that is not a string: the key is converted to a string first.
  A symbol is a key of its own; the values and the tables here list the properties with
  string keys only, so a symbol finds none.
\<close>

definition standard_in_other :: "jsvalue \<Rightarrow> jsvalue \<Rightarrow> thrown + bool" where
  "standard_in_other key obj =
     (case key of
        JSymbol d \<Rightarrow> Inr False
      | _ \<Rightarrow>
          (case standard_to_string key of
             Inl e \<Rightarrow> Inl e
           | Inr k \<Rightarrow> Inr (js_in standard_inherited k obj)))"

text \<open>
  \<^verbatim>\<open>new URL(u)\<close> for the addresses the runs use: \<^verbatim>\<open>http://\<close> or \<^verbatim>\<open>https://\<close>, a host of
  lower-case letters, and an optional path of lower-case letters and slashes. The result
  is the normalised address, with the path \<^verbatim>\<open>/\<close> when none is given. A missing address and
  a string without such a beginning make the constructor throw; the table also refuses
  every address beyond this form.
\<close>

definition lowercase :: "char \<Rightarrow> bool" where
  "lowercase c = (97 \<le> (of_char c :: nat) \<and> (of_char c :: nat) \<le> 122)"

definition split_scheme :: "string \<Rightarrow> (string \<times> string) option" where
  "split_scheme v =
     (if prefix ''http://'' v then Some (''http://'', drop 7 v)
      else if prefix ''https://'' v then Some (''https://'', drop 8 v)
      else None)"

definition standard_URL :: "string option \<Rightarrow> thrown + string" where
  "standard_URL u =
     (case u of
        None \<Rightarrow> Inl (TypeError ''Invalid URL'')
      | Some v \<Rightarrow>
          (case split_scheme v of
             None \<Rightarrow> Inl (TypeError ''Invalid URL'')
           | Some (scheme, rest) \<Rightarrow>
               (let host = takeWhile lowercase rest; path = dropWhile lowercase rest
                in if host \<noteq> []
                      \<and> (path = [] \<or> (hd path = CHR ''/''
                                        \<and> list_all (\<lambda>c. lowercase c \<or> c = CHR ''/'') path))
                   then Inr (scheme @ host @ (if path = [] then ''/'' else path))
                   else Inl (TypeError ''Invalid URL''))))"

text \<open>
  The outside state is a script: what the next tool calls, handshakes, transport closes
  and discoveries will answer. An operation with nothing left in its script succeeds; a
  transport that closes without a scripted answer reports its closure.
\<close>

record script =
  calls :: "(signal list \<times> (thrown + CallToolResult)) list"
  connects :: "(thrown + unit) list"
  closes :: "(thrown + unit) list"
  discoveries :: "(thrown + Tool list) list"

definition ok_result :: CallToolResult where
  "ok_result = \<lparr>content = Some [\<lparr>item_text = Some ''ok'', item_data = None\<rparr>], isError = None\<rparr>"

definition scripted :: "script runtime" where
  "scripted =
     \<lparr>new_URL = standard_URL,
      client_connect =
        (\<lambda>i tr w. case connects w of
                     [] \<Rightarrow> ([], Inr (), w)
                   | out # rest \<Rightarrow> ([], out, w\<lparr>connects := rest\<rparr>)),
      client_listTools =
        (\<lambda>c w. case discoveries w of
                  [] \<Rightarrow> ([], Inr [], w)
                | out # rest \<Rightarrow> ([], out, w\<lparr>discoveries := rest\<rparr>)),
      client_callTool =
        (\<lambda>c tool a w. case calls w of
                         [] \<Rightarrow> ([], Inr ok_result, w)
                       | (sigs, out) # rest \<Rightarrow> (sigs, out, w\<lparr>calls := rest\<rparr>)),
      transport_close =
        (\<lambda>t w. case closes w of
                  [] \<Rightarrow> ([OnClose t], Inr (), w)
                | out # rest \<Rightarrow> ([], out, w\<lparr>closes := rest\<rparr>)),
      inherited = standard_inherited,
      to_string = standard_to_string,
      in_other = standard_in_other\<rparr>"

definition idle :: script where
  "idle = \<lparr>calls = [], connects = [], closes = [], discoveries = []\<rparr>"

definition demo_server :: ServerConfig where
  "demo_server =
     \<lparr>name = ''srv'', cfg_transport = Stdio, command = Some ''node'', command_args = None,
      cwd = None, env = None, url = None, headers = None, allowPrivateUrls = Some False,
      timeout = None\<rparr>"

definition demo_transport :: "nat \<Rightarrow> Transport" where
  "demo_transport i = StdioClientTransport i (Some ''node'') None None None"

text \<open>The session object \<^verbatim>\<open>connect\<close> creates for \<open>demo_server\<close> as its \<open>i\<close>-th object.\<close>

definition demo_entry :: "nat \<Rightarrow> ClientEntry" where
  "demo_entry i =
     \<lparr>config = demo_server, client = i, transport = demo_transport i, connected = True,
      toolSchemas = Map.empty\<rparr>"

text \<open>The pool after one \<^verbatim>\<open>connect(demo_server)\<close> on a new pool, in the outside state \<open>w\<close>.\<close>

definition demo_pool :: "script \<Rightarrow> script pool" where
  "demo_pool w =
     \<lparr>clients = [(''srv'', 0)], heap = (\<lambda>r. vacant)(0 := demo_entry 0),
      listeners = [0 \<mapsto> ''srv''], next_id = 1, world = w,
      trace = [ClientConnect 0 (demo_transport 0)]\<rparr>"

text \<open>
  The schema of the specification's example, one that declares an array, one whose
  declared type is a list of names, and one that gives \<^verbatim>\<open>null\<close> for a declared field.
\<close>

definition city_schema :: ToolSchema where
  "city_schema =
     \<lparr>schema_type = Some ''object'',
      properties = Some [(''city'', \<lparr>prop_type = Some ''string''\<rparr>)],
      required = Some [''city'']\<rparr>"

definition tags_schema :: ToolSchema where
  "tags_schema =
     \<lparr>schema_type = Some ''object'',
      properties = Some [(''tags'', \<lparr>prop_type = Some ''array''\<rparr>)],
      required = None\<rparr>"

definition union_schema :: jsvalue where
  "union_schema =
     JObject [(''type'', JString ''object''),
              (''properties'',
               JObject [(''note'', JObject [(''type'', JArray [JString ''string'', JString ''null''])])])]"

definition null_schema :: jsvalue where
  "null_schema = JObject [(''type'', JString ''object''), (''properties'', JObject [(''x'', JNull)])]"

definition tag_tool :: Tool where
  "tag_tool =
     \<lparr>tool_name = ''tag'', description = None, inputSchema = of_ToolSchema tags_schema\<rparr>"

definition weather_tool :: Tool where
  "weather_tool =
     \<lparr>tool_name = ''weather'', description = None, inputSchema = of_ToolSchema city_schema\<rparr>"

definition lookup_tool :: Tool where
  "lookup_tool = \<lparr>tool_name = ''lookup'', description = None, inputSchema = null_schema\<rparr>"

text \<open>A server reached over HTTP.\<close>

definition web_server :: "string option \<Rightarrow> ServerConfig" where
  "web_server u = demo_server\<lparr>name := ''web'', cfg_transport := Http, command := None, url := u\<rparr>"

definition db_server :: ServerConfig where
  "db_server = demo_server\<lparr>name := ''db''\<rparr>"

text \<open>The pool after \<^verbatim>\<open>connect(demo_server)\<close> and \<^verbatim>\<open>connect(db_server)\<close>.\<close>

definition two_pool :: "script \<Rightarrow> script pool" where
  "two_pool w = snd (connect scripted db_server (demo_pool w))"

text \<open>
  The pool after \<^verbatim>\<open>connect(demo_server)\<close> and a discovery that finds \<open>weather_tool\<close>; the
  next discovery will find it again.
\<close>

definition weather_pool :: "script pool" where
  "weather_pool =
     snd (listTools scripted ''srv''
            (demo_pool (idle\<lparr>discoveries := [Inr [weather_tool], Inr [weather_tool]]\<rparr>)))"

text \<open>The definitions a concrete run unfolds.\<close>

lemmas run_defs =
  callTool_def callTool_catch_def reconnect_def teardown_def connect_def createTransport_def
  attempt_def await_def listTools_def close_def closeAll_def getStatus_def markDisconnected_def
  emit_def new_pool_def demo_pool_def demo_entry_def demo_server_def demo_transport_def idle_def
  checked_def
  scripted_def Error_def Let_def

section \<open>Basic properties\<close>

subsection \<open>Traces and signals\<close>

lemma requests_append [simp]: "requests (xs @ ys) = requests xs @ requests ys"
  by (simp add: requests_def)

lemma requests_Nil [simp]: "requests [] = []"
  by (simp add: requests_def)

lemma requests_Cons [simp]: "requests (ev # evs) = (if is_console ev then requests evs else ev # requests evs)"
  by (simp add: requests_def)

lemma emit_fields [simp]:
  "clients (emit ev s) = clients s" "heap (emit ev s) = heap s"
  "listeners (emit ev s) = listeners s" "next_id (emit ev s) = next_id s"
  "world (emit ev s) = world s" "trace (emit ev s) = trace s @ [ev]"
  by (simp_all add: emit_def)

lemma markDisconnected_fields [simp]:
  "clients (markDisconnected n s) = clients s"
  "listeners (markDisconnected n s) = listeners s" "next_id (markDisconnected n s) = next_id s"
  "world (markDisconnected n s) = world s" "trace (markDisconnected n s) = trace s"
  by (simp_all add: markDisconnected_def split: option.splits)

lemma markDisconnected_heap:
  "heap (markDisconnected n s) r =
     (if map_of (clients s) n = Some r then (heap s r)\<lparr>connected := False\<rparr> else heap s r)"
  by (simp add: markDisconnected_def split: option.splits)

lemma deliver_signal_fields [simp]:
  "clients (deliver_signal sig s) = clients s"
  "listeners (deliver_signal sig s) = listeners s" "next_id (deliver_signal sig s) = next_id s"
  "world (deliver_signal sig s) = world s"
  by (cases sig; simp split: option.splits)+

lemma deliver_signal_requests [simp]:
  "requests (trace (deliver_signal sig s)) = requests (trace s)"
  by (cases sig; simp split: option.splits)

lemma deliver_signal_heap [simp]:
  "config (heap (deliver_signal sig s) r) = config (heap s r)"
  "client (heap (deliver_signal sig s) r) = client (heap s r)"
  "transport (heap (deliver_signal sig s) r) = transport (heap s r)"
  "toolSchemas (heap (deliver_signal sig s) r) = toolSchemas (heap s r)"
  by (cases sig; simp add: markDisconnected_heap split: option.splits)+

lemma deliver_signal_connected:
  "connected (heap (deliver_signal sig s) r) \<Longrightarrow> connected (heap s r)"
  by (cases sig; simp add: markDisconnected_heap split: option.splits if_splits)

lemma deliver_fields [simp]:
  "clients (deliver sigs s) = clients s"
  "listeners (deliver sigs s) = listeners s" "next_id (deliver sigs s) = next_id s"
  "world (deliver sigs s) = world s"
  by (induction sigs arbitrary: s; simp)+

lemma deliver_requests [simp]: "requests (trace (deliver sigs s)) = requests (trace s)"
  by (induction sigs arbitrary: s) simp_all

lemma deliver_heap [simp]:
  "config (heap (deliver sigs s) r) = config (heap s r)"
  "client (heap (deliver sigs s) r) = client (heap s r)"
  "transport (heap (deliver sigs s) r) = transport (heap s r)"
  "toolSchemas (heap (deliver sigs s) r) = toolSchemas (heap s r)"
  by (induction sigs arbitrary: s; simp)+

lemma deliver_connected: "connected (heap (deliver sigs s) r) \<Longrightarrow> connected (heap s r)"
  by (induction sigs arbitrary: s) (auto dest: deliver_signal_connected)

lemma await_fields:
  assumes "await ev eff s = (out, s1)"
  shows "clients s1 = clients s" "listeners s1 = listeners s" "next_id s1 = next_id s"
    "config (heap s1 r) = config (heap s r)" "client (heap s1 r) = client (heap s r)"
    "transport (heap s1 r) = transport (heap s r)" "toolSchemas (heap s1 r) = toolSchemas (heap s r)"
    "requests (trace s1) = requests (trace s) @ requests [ev]"
  using assms by (auto simp: await_def split: prod.splits)

lemma await_connected:
  "await ev eff s = (out, s1) \<Longrightarrow> connected (heap s1 r) \<Longrightarrow> connected (heap s r)"
  by (auto simp: await_def split: prod.splits dest: deliver_connected)

subsection \<open>Membership of a property, for evaluation\<close>

lemma js_in_map_of:
  "js_in inh field obj \<longleftrightarrow>
     map_of (own_properties obj) field \<noteq> None \<or> map_of (inh obj) field \<noteq> None"
  unfolding js_in_def map_of_eq_None_iff by simp

subsection \<open>Substrings\<close>

lemma str_includes_iff: "str_includes s sub \<longleftrightarrow> (\<exists>ps ss. s = ps @ sub @ ss)"
proof (induction s)
  case Nil
  then show ?case by simp
next
  case (Cons c cs)
  show ?case
  proof
    assume "str_includes (c # cs) sub"
    then consider "prefix sub (c # cs)" | "str_includes cs sub" by auto
    then show "\<exists>ps ss. c # cs = ps @ sub @ ss"
    proof cases
      case 1
      then obtain ss where "c # cs = sub @ ss" by (auto simp: prefix_def)
      then have "c # cs = [] @ sub @ ss" by simp
      then show ?thesis by blast
    next
      case 2
      with Cons.IH obtain ps ss where "cs = ps @ sub @ ss" by blast
      then have "c # cs = (c # ps) @ sub @ ss" by simp
      then show ?thesis by blast
    qed
  next
    assume "\<exists>ps ss. c # cs = ps @ sub @ ss"
    then obtain ps ss where eq: "c # cs = ps @ sub @ ss" by blast
    show "str_includes (c # cs) sub"
    proof (cases ps)
      case Nil
      with eq have "prefix sub (c # cs)" by (simp add: prefix_def)
      then show ?thesis by simp
    next
      case (Cons p ps')
      with eq have "cs = ps' @ sub @ ss" by simp
      with Cons.IH have "str_includes cs sub" by blast
      then show ?thesis by simp
    qed
  qed
qed

subsection \<open>Frame properties of the pool operations\<close>

lemma warn_all_fields [simp]:
  "clients (warn_all ms s) = clients s" "heap (warn_all ms s) = heap s"
  "listeners (warn_all ms s) = listeners s" "next_id (warn_all ms s) = next_id s"
  "world (warn_all ms s) = world s"
  by (induction ms arbitrary: s; simp)+

lemma warn_all_trace: "trace (warn_all ms s) = trace s @ map (\<lambda>m. Console WarnLevel m None) ms"
  by (induction ms arbitrary: s) simp_all

lemma warn_all_requests [simp]: "requests (trace (warn_all ms s)) = requests (trace s)"
  by (simp add: warn_all_trace requests_def)

text \<open>The check touches nothing but the console.\<close>

lemma checked_fields:
  assumes "checked rt serverName toolName args r s = (out, s0)"
  shows "clients s0 = clients s" "heap s0 = heap s" "listeners s0 = listeners s"
    "next_id s0 = next_id s" "world s0 = world s" "requests (trace s0) = requests (trace s)"
    "prefix (trace s) (trace s0)"
  using assms by (auto simp: checked_def warn_all_trace requests_def split: prod.splits)

lemma checked_no_schema:
  "toolSchemas (heap s r) toolName = None \<Longrightarrow> checked rt serverName toolName args r s = (Inr (), s)"
  by (simp add: checked_def warnOnSchemaViolations_def)

lemma createTransport_id: "createTransport rt i cfg = Inr tr \<Longrightarrow> transport_id tr = i"
  by (auto simp: createTransport_def split: if_splits sum.splits)

lemma attempt_fields:
  assumes "attempt rt toolName args r s = (out, s1)"
  shows "clients s1 = clients s" "listeners s1 = listeners s" "next_id s1 = next_id s"
    "config (heap s1 q) = config (heap s q)" "client (heap s1 q) = client (heap s q)"
    "transport (heap s1 q) = transport (heap s q)" "toolSchemas (heap s1 q) = toolSchemas (heap s q)"
    "requests (trace s1) = requests (trace s) @ [ClientCallTool (client (heap s r)) toolName args]"
  using assms unfolding attempt_def by (auto dest: await_fields)


lemma teardown_fields:
  "clients (teardown rt n r s) = AList.delete n (clients s)"
  "listeners (teardown rt n r s) = listeners s" "next_id (teardown rt n r s) = next_id s"
  "config (heap (teardown rt n r s) q) = config (heap s q)"
  "client (heap (teardown rt n r s) q) = client (heap s q)"
  "transport (heap (teardown rt n r s) q) = transport (heap s q)"
  "toolSchemas (heap (teardown rt n r s) q) = toolSchemas (heap s q)"
  "requests (trace (teardown rt n r s)) =
     requests (trace s) @ [TransportClose (transport_id (transport (heap s r)))]"
  by (auto simp: teardown_def Let_def await_def split: prod.splits sum.splits)

lemma connect_Inl:
  assumes "connect rt cfg s = (Inl e, s')"
  shows "clients s' = clients s" "next_id s' = Suc (next_id s)"
    "config (heap s' q) = config (heap s q)" "client (heap s' q) = client (heap s q)"
    "transport (heap s' q) = transport (heap s q)" "toolSchemas (heap s' q) = toolSchemas (heap s q)"
    "requests (trace s') = requests (trace s) @
       (case createTransport rt (next_id s) cfg of
          Inl e' \<Rightarrow> [] | Inr tr \<Rightarrow> [ClientConnect (next_id s) tr])"
  using assms
  by (auto simp: connect_def Let_def await_def split: prod.splits sum.splits if_splits)

lemma connect_Inr:
  assumes "connect rt cfg s = (Inr c, s')"
  shows "c = next_id s" "next_id s' = Suc (next_id s)"
    "clients s' = AList.update (name cfg) (next_id s) (clients s)"
    "\<exists>tr. createTransport rt (next_id s) cfg = Inr tr
        \<and> heap s' (next_id s) = \<lparr>config = cfg, client = next_id s, transport = tr,
                                   connected = True, toolSchemas = Map.empty\<rparr>
        \<and> requests (trace s') = requests (trace s) @ [ClientConnect (next_id s) tr]"
    "q \<noteq> next_id s \<Longrightarrow> config (heap s' q) = config (heap s q)"
    "q \<noteq> next_id s \<Longrightarrow> client (heap s' q) = client (heap s q)"
    "q \<noteq> next_id s \<Longrightarrow> transport (heap s' q) = transport (heap s q)"
    "q \<noteq> next_id s \<Longrightarrow> toolSchemas (heap s' q) = toolSchemas (heap s q)"
  using assms
  by (auto simp: connect_def Let_def await_def split: prod.splits sum.splits if_splits)

lemma reconnect_None: "map_of (clients s) n = None \<Longrightarrow> reconnect rt n s = (Inr (), s)"
  by (simp add: reconnect_def)

lemma map_of_delete_same [simp]: "map_of (AList.delete n xs) n = None"
  by (simp add: AList.delete_conv)

lemma map_of_update_same [simp]: "map_of (AList.update n v xs) n = Some v"
  by (simp add: AList.update_conv')

lemma reconnect_Inl:
  assumes "map_of (clients s) n = Some r" and "reconnect rt n s = (Inl e, s')"
  shows "connect rt (config (heap s r)) (teardown rt n r s) = (Inl e, s')"
    and "map_of (clients s') n = None"
    and "requests (trace s') = requests (trace s) @
           TransportClose (transport_id (transport (heap s r))) #
           (case createTransport rt (next_id s) (config (heap s r)) of
              Inl e' \<Rightarrow> [] | Inr tr \<Rightarrow> [ClientConnect (next_id s) tr])"
proof -
  from assms show c: "connect rt (config (heap s r)) (teardown rt n r s) = (Inl e, s')"
    by (auto simp: reconnect_def Let_def teardown_fields split: prod.splits sum.splits)
  from connect_Inl(1)[OF c] show "map_of (clients s') n = None"
    by (simp add: teardown_fields)
  from connect_Inl(7)[OF c] show "requests (trace s') = requests (trace s) @
           TransportClose (transport_id (transport (heap s r))) #
           (case createTransport rt (next_id s) (config (heap s r)) of
              Inl e' \<Rightarrow> [] | Inr tr \<Rightarrow> [ClientConnect (next_id s) tr])"
    by (simp add: teardown_fields split: sum.splits)
qed

lemma reconnect_Inr:
  assumes "map_of (clients s) n = Some r" and "reconnect rt n s = (Inr u, s')"
  shows "\<exists>tr. createTransport rt (next_id s) (config (heap s r)) = Inr tr
           \<and> heap s' (next_id s) = \<lparr>config = config (heap s r), client = next_id s, transport = tr,
                                      connected = True, toolSchemas = Map.empty\<rparr>
           \<and> requests (trace s') = requests (trace s) @
                [TransportClose (transport_id (transport (heap s r))), ClientConnect (next_id s) tr]"
    and "clients s' = AList.update (name (config (heap s r))) (next_id s) (AList.delete n (clients s))"
    and "next_id s' = Suc (next_id s)"
    and "q \<noteq> next_id s \<Longrightarrow> config (heap s' q) = config (heap s q)"
    and "q \<noteq> next_id s \<Longrightarrow> client (heap s' q) = client (heap s q)"
    and "q \<noteq> next_id s \<Longrightarrow> transport (heap s' q) = transport (heap s q)"
    and "q \<noteq> next_id s \<Longrightarrow> toolSchemas (heap s' q) = toolSchemas (heap s q)"
proof -
  from assms obtain c s4 where
    c: "connect rt (config (heap s r)) (teardown rt n r s) = (Inr c, s4)"
    and s': "s' = emit (Console LogLevel (''[mcp-adapter] Reconnected to '' @ n) None) s4"
    by (auto simp: reconnect_def Let_def teardown_fields split: prod.splits sum.splits)
  from connect_Inr(4)[OF c] show "\<exists>tr. createTransport rt (next_id s) (config (heap s r)) = Inr tr
           \<and> heap s' (next_id s) = \<lparr>config = config (heap s r), client = next_id s, transport = tr,
                                      connected = True, toolSchemas = Map.empty\<rparr>
           \<and> requests (trace s') = requests (trace s) @
                [TransportClose (transport_id (transport (heap s r))), ClientConnect (next_id s) tr]"
    by (auto simp: s' teardown_fields)
  from connect_Inr(3)[OF c] show "clients s' = AList.update (name (config (heap s r))) (next_id s) (AList.delete n (clients s))"
    by (simp add: s' teardown_fields)
  from connect_Inr(2)[OF c] show "next_id s' = Suc (next_id s)"
    by (simp add: s' teardown_fields)
  show "q \<noteq> next_id s \<Longrightarrow> config (heap s' q) = config (heap s q)"
    using connect_Inr(5)[OF c, of q] by (simp add: s' teardown_fields)
  show "q \<noteq> next_id s \<Longrightarrow> client (heap s' q) = client (heap s q)"
    using connect_Inr(6)[OF c, of q] by (simp add: s' teardown_fields)
  show "q \<noteq> next_id s \<Longrightarrow> transport (heap s' q) = transport (heap s q)"
    using connect_Inr(7)[OF c, of q] by (simp add: s' teardown_fields)
  show "q \<noteq> next_id s \<Longrightarrow> toolSchemas (heap s' q) = toolSchemas (heap s q)"
    using connect_Inr(8)[OF c, of q] by (simp add: s' teardown_fields)
qed

subsection \<open>The invariant\<close>

lemma wf_pool_lookup:
  assumes "wf_pool s" and "map_of (clients s) n = Some r"
  shows "r < next_id s" "name (config (heap s r)) = n" "client (heap s r) = r"
    "transport_id (transport (heap s r)) = r"
proof -
  from assms(2) have "(n, r) \<in> set (clients s)" by (rule map_of_SomeD)
  with assms(1) show "r < next_id s" "name (config (heap s r)) = n" "client (heap s r) = r"
    "transport_id (transport (heap s r)) = r"
    by (auto simp: wf_pool_def list_all_iff)
qed

lemma wf_pool_frame:
  assumes "wf_pool s" and "clients s' = clients s" and "next_id s \<le> next_id s'"
    and "\<And>q. config (heap s' q) = config (heap s q)"
    and "\<And>q. client (heap s' q) = client (heap s q)"
    and "\<And>q. transport (heap s' q) = transport (heap s q)"
  shows "wf_pool s'"
  using assms by (fastforce simp: wf_pool_def list_all_iff)

lemma wf_new_pool: "wf_pool (new_pool w)"
  by (simp add: wf_pool_def new_pool_def)

section \<open>Building a transport\<close>

text \<open>
  \<^verbatim>\<open>createTransport\<close> runs before the handshake. When it throws, as \<^verbatim>\<open>new URL\<close> does for an
  address that is missing or not valid, \<^verbatim>\<open>connect\<close> rejects with what it threw: no request
  is made and the map is not touched.
\<close>

lemma connect_without_transport:
  assumes "createTransport rt (next_id s) cfg = Inl e"
  shows "connect rt cfg s = (Inl e, s\<lparr>next_id := Suc (next_id s)\<rparr>)"
  using assms by (simp add: connect_def Let_def)

text \<open>Runs with a server reached over HTTP.\<close>

lemma web_server_runs:
  "connect scripted (web_server (Some ''not a url'')) (new_pool idle)
     = (Inl (TypeError ''Invalid URL''), (new_pool idle)\<lparr>next_id := 1\<rparr>)"
  "connect scripted (web_server None) (new_pool idle)
     = (Inl (TypeError ''Invalid URL''), (new_pool idle)\<lparr>next_id := 1\<rparr>)"
  "fst (connect scripted (web_server (Some ''https://example/mcp'')) (new_pool idle)) = Inr 0"
  "trace (snd (connect scripted (web_server (Some ''https://example/mcp'')) (new_pool idle)))
     = [ClientConnect 0 (StreamableHTTPClientTransport 0 ''https://example/mcp'' None)]"
  "listeners (snd (connect scripted (web_server (Some ''https://example/mcp'')) (new_pool idle)))
     = Map.empty"
  by (simp_all add: run_defs web_server_def standard_URL_def split_scheme_def lowercase_def)

section \<open>Identities without a session\<close>

text \<open>
  Claim C5. For an identity that has no session in the pool, \<^verbatim>\<open>getStatus\<close> answers
  \<^verbatim>\<open>{connected: false}\<close>, and \<^verbatim>\<open>callTool\<close> and \<^verbatim>\<open>listTools\<close> reject with the error
  \<^verbatim>\<open>Unknown server: <name>\<close>, leaving the pool as it was.
\<close>

theorem unknown_identity:
  assumes "map_of (clients s) serverName = None"
  shows "getStatus serverName s = \<lparr>status_connected = False\<rparr>
       \<and> callTool rt serverName toolName args s = (Inl (Error (''Unknown server: '' @ serverName)), s)
       \<and> listTools rt serverName s = (Inl (Error (''Unknown server: '' @ serverName)), s)"
  using assms by (simp add: getStatus_def callTool_def listTools_def)

text \<open>A new pool has no session for \<^verbatim>\<open>srv\<close>.\<close>

theorem unknown_identity_witness:
  "map_of (clients (new_pool idle)) ''srv'' = None
   \<and> getStatus ''srv'' (new_pool idle) = \<lparr>status_connected = False\<rparr>
   \<and> callTool scripted ''srv'' ''weather'' (JObject []) (new_pool idle)
       = (Inl (Error ''Unknown server: srv''), new_pool idle)
   \<and> listTools scripted ''srv'' (new_pool idle) = (Inl (Error ''Unknown server: srv''), new_pool idle)"
proof -
  have h: "map_of (clients (new_pool idle)) ''srv'' = None" by (simp add: new_pool_def)
  show ?thesis
    using h unknown_identity [OF h, of scripted "''weather''" "JObject []"] by simp
qed

section \<open>Which failures count as connection failures\<close>

lemma isConnectionError_iff:
  "isConnectionError err \<longleftrightarrow>
     (\<exists>m \<in> set connection_markers. \<exists>ps ss. js_String err = ps @ m @ ss)"
  by (simp add: isConnectionError_def connection_markers_def str_includes_iff Let_def)

text \<open>
  A failed first call on a session that is still marked connected, with a failure that
  is not classified, leaves \<^verbatim>\<open>callTool\<close> through \<^verbatim>\<open>throw err\<close>.
\<close>

lemma callTool_propagates:
  assumes "map_of (clients s) serverName = Some r"
    and "checked rt serverName toolName args r s = (Inr u, s0)"
    and "attempt rt toolName args r s0 = (Inl err, s1)"
    and "connected (heap s1 r)" and "\<not> isConnectionError err"
  shows "callTool rt serverName toolName args s = (Inl err, s1)"
    and "requests (trace s1) = requests (trace s) @ [ClientCallTool (client (heap s r)) toolName args]"
    and "clients s1 = clients s"
proof -
  from assms show "callTool rt serverName toolName args s = (Inl err, s1)"
    by (simp add: callTool_def callTool_catch_def)
  from attempt_fields(8)[OF assms(3)] checked_fields(2,6)[OF assms(2)]
  show "requests (trace s1) = requests (trace s) @ [ClientCallTool (client (heap s r)) toolName args]"
    by simp
  from attempt_fields(1)[OF assms(3)] checked_fields(1)[OF assms(2)]
  show "clients s1 = clients s" by simp
qed

text \<open>
  Claim C2, as amended. \<^verbatim>\<open>isConnectionError(err)\<close> holds exactly when the text
  \<^verbatim>\<open>String(err)\<close> contains one of the seven substrings \<^verbatim>\<open>closed\<close>, \<^verbatim>\<open>ECONNREFUSED\<close>,
  \<^verbatim>\<open>EPIPE\<close>, \<^verbatim>\<open>ETIMEDOUT\<close>, \<^verbatim>\<open>ECONNRESET\<close>, \<^verbatim>\<open>ENOTFOUND\<close>, \<^verbatim>\<open>EHOSTUNREACH\<close>. A failure
  that is not classified, on a session still marked connected once the call has failed,
  triggers no reconnect: \<^verbatim>\<open>callTool\<close> rejects with that same failure, and the one call is
  the only request it made. The call is made in the pool \<open>s0\<close> the advisory check leaves
  when it returns.
\<close>

theorem connection_class_by_substring:
  "(isConnectionError err \<longleftrightarrow>
      (\<exists>m \<in> set connection_markers. \<exists>ps ss. js_String err = ps @ m @ ss))
   \<and> (map_of (clients s) serverName = Some r
        \<and> checked rt serverName toolName args r s = (Inr (), s0)
        \<and> attempt rt toolName args r s0 = (Inl err, s1)
        \<and> connected (heap s1 r) \<and> \<not> isConnectionError err
      \<longrightarrow> callTool rt serverName toolName args s = (Inl err, s1)
          \<and> clients s1 = clients s
          \<and> requests (trace s1)
              = requests (trace s) @ [ClientCallTool (client (heap s r)) toolName args])"
  using isConnectionError_iff [of err]
    callTool_propagates [of s serverName r rt toolName args "()" s0 err s1]
  by blast

text \<open>
  A run: the tool call on a connected session fails with \<^verbatim>\<open>Error: tool exploded\<close>. The
  failure is not classified, comes back as it is, and the session stays in the pool.
\<close>

theorem connection_class_by_substring_witness:
  "\<not> isConnectionError (Error ''tool exploded'')
   \<and> fst (callTool scripted ''srv'' ''weather'' (JObject [])
            (demo_pool (idle\<lparr>calls := [([], Inl (Error ''tool exploded''))]\<rparr>)))
       = Inl (Error ''tool exploded'')
   \<and> clients (snd (callTool scripted ''srv'' ''weather'' (JObject [])
            (demo_pool (idle\<lparr>calls := [([], Inl (Error ''tool exploded''))]\<rparr>))))
       = [(''srv'', 0)]
   \<and> requests (trace (snd (callTool scripted ''srv'' ''weather'' (JObject [])
            (demo_pool (idle\<lparr>calls := [([], Inl (Error ''tool exploded''))]\<rparr>)))))
       = [ClientConnect 0 (demo_transport 0), ClientCallTool 0 ''weather'' (JObject [])]"
  using connection_class_by_substring
    [of "Error ''tool exploded''" "demo_pool (idle\<lparr>calls := [([], Inl (Error ''tool exploded''))]\<rparr>)"
        "''srv''" 0 scripted "''weather''" "JObject []"
        "demo_pool (idle\<lparr>calls := [([], Inl (Error ''tool exploded''))]\<rparr>)"
        "snd (attempt scripted ''weather'' (JObject []) 0
               (demo_pool (idle\<lparr>calls := [([], Inl (Error ''tool exploded''))]\<rparr>)))"]
  by (simp add: run_defs isConnectionError_def warnOnSchemaViolations_def)

text \<open>
  Claim C2 as stated fails in three ways. A failure a tool reports is classified as soon
  as its text contains \<^verbatim>\<open>closed\<close>. A failure that is not classified still triggers the
  reconnect when the session is marked disconnected: below, the close of transport 0 and
  the second handshake follow the failed call. And an aborted connection
  (\<^verbatim>\<open>ECONNABORTED\<close>) is not classified.
\<close>

theorem connection_class_counterexample:
  "isConnectionError (Thrown ''McpError'' ''MCP error -32603: ticket 7 is already closed'')
   \<and> \<not> isConnectionError (Thrown ''Error'' ''write ECONNABORTED'')
   \<and> \<not> isConnectionError (Error ''tool exploded'')
   \<and> requests (trace (snd (callTool scripted ''srv'' ''weather'' (JObject [])
        (markDisconnected ''srv''
           (demo_pool (idle\<lparr>calls := [([], Inl (Error ''tool exploded''))]\<rparr>))))))
       = [ClientConnect 0 (demo_transport 0), ClientCallTool 0 ''weather'' (JObject []),
          TransportClose 0, ClientConnect 1 (demo_transport 1),
          ClientCallTool 1 ''weather'' (JObject [])]"
  by (simp add: run_defs isConnectionError_def warnOnSchemaViolations_def)

section \<open>What the advisory check reports\<close>

text \<open>The definitions an evaluation of the check unfolds.\<close>

lemmas check_defs =
  warnOnSchemaViolations_def check_required_def check_properties_def required_warning_def
  property_warning_def template_def js_in_value_def js_member_def js_get_def js_in_map_of
  of_ToolSchema_def of_PropSchema_def missing_msg_def mismatch_msg_def TypeError_def
  scripted_def standard_inherited_def object_prototype_names_def array_prototype_names_def
  Let_def

text \<open>
  On a schema of the declared shape: one warning per listed required name that \<^verbatim>\<open>in\<close>
  does not find, in the order of the list; and a warning for a declared field exactly
  when \<^verbatim>\<open>in\<close> finds it, its declared type is a non-empty string, its value is neither
  \<^verbatim>\<open>null\<close> nor \<^verbatim>\<open>undefined\<close>, and \<^verbatim>\<open>typeof\<close> of the value is not the declared type
  (\<^verbatim>\<open>number\<close> for a declared \<^verbatim>\<open>integer\<close>). Nothing is thrown.
\<close>

lemma required_warnings_exact:
  "required_warnings rt pre obj (map JString names)
     = (map (\<lambda>f. pre @ '': '' @ missing_msg f) (filter (\<lambda>f. \<not> js_in (inherited rt) f obj) names),
        Inr ())"
  by (induction names) (simp_all add: required_warning_def js_in_value_def template_def)

lemma property_warning_typed:
  assumes "map_of (inherited rt (JObject [])) ''type'' = None"
  shows "snd (property_warning rt pre obj (field, of_PropSchema prop)) = Inr ()"
    and "fst (property_warning rt pre obj (field, of_PropSchema prop)) \<noteq> [] \<longleftrightarrow>
     (\<exists>t. prop_type prop = Some t \<and> t \<noteq> [] \<and> js_in (inherited rt) field obj
          \<and> js_get (inherited rt) obj field \<noteq> JNull \<and> js_get (inherited rt) obj field \<noteq> JUndefined
          \<and> typeof (js_get (inherited rt) obj field) \<noteq> (if t = ''integer'' then ''number'' else t))"
  using assms
  by (auto simp: property_warning_def of_PropSchema_def js_member_def template_def Let_def
        js_get_def [of _ "JObject _"] split: option.splits)

lemma property_warnings_typed:
  assumes "map_of (inherited rt (JObject [])) ''type'' = None"
  shows "snd (property_warnings rt pre obj (map (\<lambda>(f, p). (f, of_PropSchema p)) ps)) = Inr ()"
proof (induction ps)
  case Nil
  show ?case by simp
next
  case (Cons a ps)
  obtain f p where a: "a = (f, p)" by (cases a)
  from property_warning_typed(1)[OF assms, of pre obj f p] Cons show ?case
    by (auto simp: a split: prod.splits sum.splits)
qed

text \<open>
  The check returns on every schema of the declared shape, whatever the arguments, in a
  runtime where an object does not inherit the three names the check reads.
\<close>

lemma typed_schema_never_throws:
  assumes "map_of (inherited rt (JObject [])) ''type'' = None"
    and "\<And>ps. map_of (inherited rt (JObject ps)) ''required'' = None"
    and "\<And>ps. map_of (inherited rt (JObject ps)) ''properties'' = None"
    and "schemas toolName = Some (of_ToolSchema sc)"
  shows "snd (warnOnSchemaViolations rt serverName toolName args schemas) = Inr ()"
proof -
  have r: "snd (check_required rt pre obj (of_ToolSchema sc)) = Inr ()" for pre obj
    using assms(2)
    by (cases "required sc"; cases "properties sc"; cases "schema_type sc")
       (simp_all add: check_required_def of_ToolSchema_def js_member_def js_get_def
          required_warnings_exact)
  have p: "snd (check_properties rt pre obj (of_ToolSchema sc)) = Inr ()" for pre obj
    using assms(3) property_warnings_typed [OF assms(1)]
    by (cases "required sc"; cases "properties sc"; cases "schema_type sc")
       (simp_all add: check_properties_def of_ToolSchema_def js_member_def js_get_def)
  let ?pre = "''[mcp-adapter] '' @ serverName @ ''/'' @ toolName"
  obtain ms where 1: "check_required rt ?pre args (of_ToolSchema sc) = (ms, Inr ())"
    using r [of ?pre args] by (cases "check_required rt ?pre args (of_ToolSchema sc)") simp
  obtain ms' where 2: "check_properties rt ?pre args (of_ToolSchema sc) = (ms', Inr ())"
    using p [of ?pre args] by (cases "check_properties rt ?pre args (of_ToolSchema sc)") simp
  show ?thesis
    using 1 2 assms(4) by (simp add: warnOnSchemaViolations_def Let_def)
qed

text \<open>The three examples of the specification: the part of claim C3 the code meets.\<close>

lemma city_examples:
  "warnOnSchemaViolations scripted ''srv'' ''weather'' (JObject [])
       [''weather'' \<mapsto> of_ToolSchema city_schema]
     = ([''[mcp-adapter] srv/weather: missing required field '' @ dquote ''city''], Inr ())"
  "warnOnSchemaViolations scripted ''srv'' ''weather'' (JObject [(''city'', JNumber 5)])
       [''weather'' \<mapsto> of_ToolSchema city_schema]
     = ([''[mcp-adapter] srv/weather: field '' @ dquote ''city'' @ '' expected string, got number''],
        Inr ())"
  "warnOnSchemaViolations scripted ''srv'' ''weather'' (JObject [(''city'', JString ''Paris'')])
       [''weather'' \<mapsto> of_ToolSchema city_schema] = ([], Inr ())"
  by (simp_all add: check_defs city_schema_def)

lemma no_check_without_schema_or_object:
  "schemas toolName = None \<Longrightarrow> warnOnSchemaViolations rt serverName toolName args schemas = ([], Inr ())"
  "typeof args \<noteq> ''object'' \<Longrightarrow> warnOnSchemaViolations rt serverName toolName args schemas = ([], Inr ())"
  "warnOnSchemaViolations rt serverName toolName JNull schemas = ([], Inr ())"
  by (simp_all add: warnOnSchemaViolations_def)

text \<open>
  \<^verbatim>\<open>in\<close> also finds what the arguments inherit: a required field with the name of a
  property of \<^verbatim>\<open>Object.prototype\<close> is never reported missing, and an array given as
  arguments has the methods of arrays and its indices.
\<close>

lemma inherited_name_is_not_missing:
  "warnOnSchemaViolations scripted ''srv'' ''t'' (JObject [])
     [''t'' \<mapsto> of_ToolSchema \<lparr>schema_type = Some ''object'', properties = None,
                                 required = Some [''constructor'', ''city'']\<rparr>]
   = ([''[mcp-adapter] srv/t: missing required field '' @ dquote ''city''], Inr ())"
  by (simp add: check_defs)

lemma show_nat_0: "show_nat 0 = ''0''"
  by code_simp

lemma array_arguments_inherit:
  "warnOnSchemaViolations scripted ''srv'' ''t'' (JArray [JString ''Paris''])
     [''t'' \<mapsto> of_ToolSchema \<lparr>schema_type = Some ''object'', properties = None,
                                 required = Some [''map'', ''toString'', ''length'', ''0'', ''city'']\<rparr>]
   = ([''[mcp-adapter] srv/t: missing required field '' @ dquote ''city''], Inr ())"
  by (simp add: check_defs show_nat_0)

text \<open>
  A declared type that is not a string, here the list \<^verbatim>\<open>["string", "null"]\<close>, is equal to
  no result of \<^verbatim>\<open>typeof\<close>: every value of the field that is present gets a warning.
\<close>

lemma list_of_types_warns:
  "warnOnSchemaViolations scripted ''srv'' ''t'' (JObject [(''note'', JString ''a'')])
     [''t'' \<mapsto> union_schema]
   = ([''[mcp-adapter] srv/t: field '' @ dquote ''note'' @ '' expected string,null, got string''],
      Inr ())"
  by (simp add: check_defs union_schema_def)

text \<open>
  Claim C3 at a failing input. The schema declares the field \<^verbatim>\<open>tags\<close> as an array and
  the arguments give it an array, so the declared kind and the kind of the value agree
  and the claim has no diagnostic. The code compares the declared name \<^verbatim>\<open>array\<close> with
  \<^verbatim>\<open>typeof\<close> of the value, which is \<^verbatim>\<open>object\<close> for every array, and warns.
\<close>

theorem array_field_warns:
  "warnOnSchemaViolations scripted ''srv'' ''tag''
     (JObject [(''tags'', JArray [JString ''a''])]) [''tag'' \<mapsto> of_ToolSchema tags_schema]
   = ([''[mcp-adapter] srv/tag: field '' @ dquote ''tags'' @ '' expected array, got object''],
      Inr ())"
  by (simp add: check_defs tags_schema_def)

text \<open>
  The same input in a run: after discovery has stored the schema, \<^verbatim>\<open>callTool\<close> with the
  array argument writes that warning to the console and then makes the call.
\<close>

theorem array_field_warns_witness:
  "trace (snd (callTool scripted ''srv'' ''tag'' (JObject [(''tags'', JArray [JString ''a''])])
          (snd (listTools scripted ''srv'' (demo_pool (idle\<lparr>discoveries := [Inr [tag_tool]]\<rparr>))))))
   = [ClientConnect 0 (demo_transport 0), ClientListTools 0,
      Console WarnLevel
        (''[mcp-adapter] srv/tag: field '' @ dquote ''tags'' @ '' expected array, got object'') None,
      ClientCallTool 0 ''tag'' (JObject [(''tags'', JArray [JString ''a''])])]"
proof -
  have a: "toolSchemas (heap (snd (listTools scripted ''srv''
             (demo_pool (idle\<lparr>discoveries := [Inr [tag_tool]]\<rparr>)))) 0)
           = [''tag'' \<mapsto> of_ToolSchema tags_schema]"
    by (simp add: run_defs tag_tool_def of_ToolSchema_def)
  show ?thesis
    using array_field_warns a
    by (simp add: callTool_def checked_def listTools_def attempt_def await_def emit_def
          demo_pool_def demo_entry_def idle_def tag_tool_def of_ToolSchema_def
          scripted_def Let_def)
qed

section \<open>Closing sessions\<close>

lemma close_None: "map_of (clients s) n = None \<Longrightarrow> close rt n s = (Inr (), s)"
  by (simp add: close_def)

lemma close_Some:
  assumes "map_of (clients s) n = Some r"
  shows "fst (close rt n s) = Inr ()"
    "clients (snd (close rt n s)) = AList.delete n (clients s)"
    "next_id (snd (close rt n s)) = next_id s"
    "config (heap (snd (close rt n s)) q) = config (heap s q)"
    "client (heap (snd (close rt n s)) q) = client (heap s q)"
    "transport (heap (snd (close rt n s)) q) = transport (heap s q)"
    "requests (trace (snd (close rt n s)))
       = requests (trace s) @ [TransportClose (transport_id (transport (heap s r)))]"
  using assms by (auto simp: close_def Let_def await_def split: prod.splits sum.splits)

lemma closeAll_loop_spec:
  assumes "distinct (map fst cs)" and "set cs \<subseteq> set (clients s)"
    and "distinct (map fst (clients s))"
  shows "fst (closeAll_loop rt (map fst cs) s) = Inr ()
       \<and> clients (snd (closeAll_loop rt (map fst cs) s))
           = filter (\<lambda>p. fst p \<notin> fst ` set cs) (clients s)
       \<and> requests (trace (snd (closeAll_loop rt (map fst cs) s)))
           = requests (trace s)
             @ map (\<lambda>(n, r). TransportClose (transport_id (transport (heap s r)))) cs"
  using assms
proof (induction cs arbitrary: s)
  case Nil
  then show ?case by simp
next
  case (Cons p cs)
  obtain n r where p: "p = (n, r)" by (cases p)
  from Cons.prems p have look: "map_of (clients s) n = Some r" by simp
  let ?s1 = "snd (close rt n s)"
  have cl: "clients ?s1 = AList.delete n (clients s)" by (rule close_Some(2)[OF look])
  have d1: "distinct (map fst cs)" using Cons.prems(1) by simp
  have nfresh: "n \<notin> fst ` set cs" using Cons.prems(1) p by simp
  have nfresh': "(n, b) \<notin> set cs" for b using nfresh by force
  have sub: "set cs \<subseteq> set (clients ?s1)"
    using Cons.prems(2) nfresh' by (auto simp: cl AList.delete_eq)
  have d2: "distinct (map fst (clients ?s1))"
    using Cons.prems(3) by (simp add: cl distinct_delete)
  note IH = Cons.IH[OF d1 sub d2]
  have step: "closeAll_loop rt (map fst (p # cs)) s = closeAll_loop rt (map fst cs) ?s1"
    using close_Some(1)[OF look, of rt] by (cases "close rt n s") (auto simp: p)
  have tr: "map (\<lambda>(n, r). TransportClose (transport_id (transport (heap ?s1 r)))) cs
          = map (\<lambda>(n, r). TransportClose (transport_id (transport (heap s r)))) cs"
    by (simp add: close_Some(6)[OF look])
  have flt: "filter (\<lambda>p. fst p \<notin> fst ` set cs) (AList.delete n (clients s))
           = filter (\<lambda>q. fst q \<notin> fst ` set (p # cs)) (clients s)"
    by (auto simp: AList.delete_eq p intro: filter_cong)
  show ?case
    unfolding step using IH by (simp add: tr cl flt close_Some(7)[OF look] p)
qed

lemma closeAll_spec:
  assumes "distinct (map fst (clients s))"
  shows "fst (closeAll rt s) = Inr ()" "clients (snd (closeAll rt s)) = []"
    "requests (trace (snd (closeAll rt s)))
       = requests (trace s)
         @ map (\<lambda>(n, r). TransportClose (transport_id (transport (heap s r)))) (clients s)"
proof -
  note spec = closeAll_loop_spec[OF assms subset_refl assms, of rt]
  from spec show "fst (closeAll rt s) = Inr ()" by (simp add: closeAll_def)
  from spec have "clients (snd (closeAll rt s)) = filter (\<lambda>p. fst p \<notin> fst ` set (clients s)) (clients s)"
    by (simp add: closeAll_def)
  also have "\<dots> = []" by (auto simp: filter_empty_conv)
  finally show "clients (snd (closeAll rt s)) = []" .
  from spec show "requests (trace (snd (closeAll rt s)))
       = requests (trace s)
         @ map (\<lambda>(n, r). TransportClose (transport_id (transport (heap s r)))) (clients s)"
    by (simp add: closeAll_def)
qed

text \<open>
  Claim C6. \<^verbatim>\<open>close\<close> on a name without a session returns without doing anything. On a
  name with a session it asks the transport to close once, returns normally whatever
  the transport answers, and the name has no session afterwards. \<^verbatim>\<open>closeAll\<close> returns
  normally too, leaves the pool empty, and has asked the transport of every session it
  tracked to close, in the order of the map. All of this for every runtime, so also when
  closing a transport throws.
\<close>

theorem close_best_effort:
  "(map_of (clients s) serverName = None \<longrightarrow> close rt serverName s = (Inr (), s))
   \<and> (map_of (clients s) serverName = Some r \<longrightarrow>
        fst (close rt serverName s) = Inr ()
        \<and> map_of (clients (snd (close rt serverName s))) serverName = None
        \<and> requests (trace (snd (close rt serverName s)))
            = requests (trace s) @ [TransportClose (transport_id (transport (heap s r)))])
   \<and> (distinct (map fst (clients s)) \<longrightarrow>
        fst (closeAll rt s) = Inr ()
        \<and> clients (snd (closeAll rt s)) = []
        \<and> requests (trace (snd (closeAll rt s)))
            = requests (trace s)
              @ map (\<lambda>(n, r). TransportClose (transport_id (transport (heap s r)))) (clients s))"
  using close_None [of s serverName rt] close_Some(1,2,7) [of s serverName r rt]
    closeAll_spec [of s rt]
  by simp

text \<open>
  A run with two sessions in which closing the first transport throws \<^verbatim>\<open>kill EPERM\<close>:
  both transports are asked to close and the pool ends empty.
\<close>

theorem close_best_effort_witness:
  "map_of (clients (two_pool (idle\<lparr>closes := [Inl (Error ''kill EPERM'')]\<rparr>))) ''nope'' = None
   \<and> close scripted ''nope'' (two_pool (idle\<lparr>closes := [Inl (Error ''kill EPERM'')]\<rparr>))
       = (Inr (), two_pool (idle\<lparr>closes := [Inl (Error ''kill EPERM'')]\<rparr>))
   \<and> map_of (clients (two_pool (idle\<lparr>closes := [Inl (Error ''kill EPERM'')]\<rparr>))) ''srv'' = Some 0
   \<and> fst (close scripted ''srv'' (two_pool (idle\<lparr>closes := [Inl (Error ''kill EPERM'')]\<rparr>))) = Inr ()
   \<and> map_of (clients (snd (close scripted ''srv''
         (two_pool (idle\<lparr>closes := [Inl (Error ''kill EPERM'')]\<rparr>))))) ''srv'' = None
   \<and> distinct (map fst (clients (two_pool (idle\<lparr>closes := [Inl (Error ''kill EPERM'')]\<rparr>))))
   \<and> fst (closeAll scripted (two_pool (idle\<lparr>closes := [Inl (Error ''kill EPERM'')]\<rparr>))) = Inr ()
   \<and> clients (snd (closeAll scripted (two_pool (idle\<lparr>closes := [Inl (Error ''kill EPERM'')]\<rparr>)))) = []
   \<and> requests (trace (snd (closeAll scripted
         (two_pool (idle\<lparr>closes := [Inl (Error ''kill EPERM'')]\<rparr>)))))
       = [ClientConnect 0 (demo_transport 0), ClientConnect 1 (demo_transport 1),
          TransportClose 0, TransportClose 1]"
  using close_best_effort
    [of "two_pool (idle\<lparr>closes := [Inl (Error ''kill EPERM'')]\<rparr>)" "''nope''" scripted 0]
    close_best_effort
    [of "two_pool (idle\<lparr>closes := [Inl (Error ''kill EPERM'')]\<rparr>)" "''srv''" scripted 0]
  by (simp add: run_defs two_pool_def db_server_def)

section \<open>The invariant holds at any time\<close>

lemma wf_pool_shrink:
  assumes "wf_pool s" and "set (clients s') \<subseteq> set (clients s)"
    and "distinct (map fst (clients s'))" and "next_id s \<le> next_id s'"
    and "\<And>q. config (heap s' q) = config (heap s q)"
    and "\<And>q. client (heap s' q) = client (heap s q)"
    and "\<And>q. transport (heap s' q) = transport (heap s q)"
  shows "wf_pool s'"
  using assms by (fastforce simp: wf_pool_def list_all_iff)

lemma set_update_subset: "set (AList.update k v al) \<subseteq> insert (k, v) (set al)"
  by (induction al) auto

lemma wf_emit [simp]: "wf_pool (emit ev s) = wf_pool s"
  by (simp add: wf_pool_def)

lemma wf_warn_all [simp]: "wf_pool (warn_all ms s) = wf_pool s"
  by (simp add: wf_pool_def)

lemma wf_await:
  assumes "await ev eff s = (out, s1)" and "wf_pool s"
  shows "wf_pool s1"
  using assms(2)
  by (rule wf_pool_frame) (simp_all add: await_fields[OF assms(1)])

lemma wf_attempt:
  assumes "attempt rt toolName args r s = (out, s1)" and "wf_pool s"
  shows "wf_pool s1"
  using assms unfolding attempt_def by (rule wf_await)

lemma wf_teardown:
  assumes "wf_pool s"
  shows "wf_pool (teardown rt n r s)"
  using assms
proof (rule wf_pool_shrink)
  show "set (clients (teardown rt n r s)) \<subseteq> set (clients s)"
    by (auto simp: teardown_fields AList.delete_eq)
  show "distinct (map fst (clients (teardown rt n r s)))"
    using assms by (simp add: teardown_fields distinct_delete wf_pool_def)
qed (simp_all add: teardown_fields)

lemma wf_connect:
  assumes "connect rt cfg s = (out, s')" and "wf_pool s"
  shows "wf_pool s'"
proof (cases out)
  case (Inl e)
  with assms(1) have c: "connect rt cfg s = (Inl e, s')" by simp
  show ?thesis using assms(2)
    by (rule wf_pool_frame) (simp_all add: connect_Inl[OF c])
next
  case (Inr i)
  with assms(1) have c: "connect rt cfg s = (Inr i, s')" by simp
  note f = connect_Inr[OF c]
  from f(4) obtain tr where tr: "createTransport rt (next_id s) cfg = Inr tr"
    and h: "heap s' (next_id s) = \<lparr>config = cfg, client = next_id s, transport = tr,
                                   connected = True, toolSchemas = Map.empty\<rparr>"
    by blast
  have d: "distinct (map fst (clients s'))"
    using assms(2) by (simp add: f(3) distinct_update wf_pool_def)
  have "r < next_id s' \<and> name (config (heap s' r)) = n \<and> client (heap s' r) = r
          \<and> transport_id (transport (heap s' r)) = r"
    if "(n, r) \<in> set (clients s')" for n r
  proof -
    from that set_update_subset[of "name cfg" "next_id s" "clients s"]
    consider "(n, r) = (name cfg, next_id s)" | "(n, r) \<in> set (clients s)"
      by (auto simp: f(3))
    then show ?thesis
    proof cases
      case 1
      then show ?thesis by (simp add: f(2) h createTransport_id[OF tr])
    next
      case 2
      with assms(2) have old: "r < next_id s" "name (config (heap s r)) = n"
        "client (heap s r) = r" "transport_id (transport (heap s r)) = r"
        by (auto simp: wf_pool_def list_all_iff)
      then have "r \<noteq> next_id s" by simp
      with old show ?thesis by (simp add: f)
    qed
  qed
  with d show ?thesis by (auto simp: wf_pool_def list_all_iff)
qed

lemma wf_reconnect:
  assumes "reconnect rt n s = (out, s')" and "wf_pool s"
  shows "wf_pool s'"
proof (cases "map_of (clients s) n")
  case None
  with assms show ?thesis by (simp add: reconnect_def)
next
  case (Some r)
  obtain cout s4 where c: "connect rt (config (heap (teardown rt n r s) r)) (teardown rt n r s) = (cout, s4)"
    by (cases "connect rt (config (heap (teardown rt n r s) r)) (teardown rt n r s)")
  have "wf_pool s4" using c wf_teardown[OF assms(2)] by (rule wf_connect)
  with assms(1) Some c show ?thesis
    by (cases cout) (auto simp: reconnect_def Let_def)
qed

lemma wf_callTool_catch:
  assumes "callTool_catch rt n toolName args r err s = (out, s')" and "wf_pool s"
  shows "wf_pool s'"
proof (cases "\<not> connected (heap s r) \<or> isConnectionError err")
  case False
  with assms show ?thesis by (simp add: callTool_catch_def)
next
  case True
  obtain rout s2 where rc: "reconnect rt n s = (rout, s2)" by (cases "reconnect rt n s")
  have w2: "wf_pool s2" using rc assms(2) by (rule wf_reconnect)
  show ?thesis
  proof (cases rout)
    case (Inl e)
    with assms(1) True rc w2 show ?thesis by (simp add: callTool_catch_def)
  next
    case (Inr u)
    show ?thesis
    proof (cases "map_of (clients s2) n")
      case None
      with assms(1) True rc Inr w2 show ?thesis by (simp add: callTool_catch_def)
    next
      case (Some r')
      with assms(1) True rc Inr have "attempt rt toolName args r' s2 = (out, s')"
        by (simp add: callTool_catch_def)
      then show ?thesis using w2 by (rule wf_attempt)
    qed
  qed
qed

lemma wf_checked:
  "checked rt n toolName args r s = (out, s0) \<Longrightarrow> wf_pool s0 = wf_pool s"
  by (auto simp: checked_def split: prod.splits)

lemma wf_callTool:
  assumes "callTool rt n toolName args s = (out, s')" and "wf_pool s"
  shows "wf_pool s'"
proof (cases "map_of (clients s) n")
  case None
  with assms show ?thesis by (simp add: callTool_def)
next
  case (Some r)
  obtain o0 s0 where c: "checked rt n toolName args r s = (o0, s0)"
    by (cases "checked rt n toolName args r s")
  have w0: "wf_pool s0" using wf_checked [OF c] assms(2) by simp
  show ?thesis
  proof (cases o0)
    case (Inl e)
    with assms(1) Some c w0 show ?thesis by (simp add: callTool_def)
  next
    case u: (Inr u)
    obtain o1 s1 where a: "attempt rt toolName args r s0 = (o1, s1)"
      by (cases "attempt rt toolName args r s0")
    have w1: "wf_pool s1" using a w0 by (rule wf_attempt)
    show ?thesis
    proof (cases o1)
      case (Inr res)
      with assms(1) Some c u a w1 show ?thesis by (simp add: callTool_def)
    next
      case (Inl err)
      with assms(1) Some c u a have "callTool_catch rt n toolName args r err s1 = (out, s')"
        by (simp add: callTool_def)
      then show ?thesis using w1 by (rule wf_callTool_catch)
    qed
  qed
qed

lemma wf_listTools:
  assumes "listTools rt n s = (out, s')" and "wf_pool s"
  shows "wf_pool s'"
proof (cases "map_of (clients s) n")
  case None
  with assms show ?thesis by (simp add: listTools_def)
next
  case (Some r)
  obtain o1 s1 where a: "await (ClientListTools (client (heap s r))) (client_listTools rt (client (heap s r))) s = (o1, s1)"
    by (cases "await (ClientListTools (client (heap s r))) (client_listTools rt (client (heap s r))) s")
  have w1: "wf_pool s1" using a assms(2) by (rule wf_await)
  show ?thesis
  proof (cases o1)
    case (Inl e)
    with assms(1) Some a w1 show ?thesis by (simp add: listTools_def)
  next
    case (Inr tools)
    with assms(1) Some a have s': "s' = s1\<lparr>heap := (heap s1)(r := (heap s1 r)
                      \<lparr>toolSchemas := store_schemas tools (toolSchemas (heap s1 r))\<rparr>)\<rparr>"
      by (simp add: listTools_def)
    show ?thesis using w1 by (rule wf_pool_frame) (simp_all add: s')
  qed
qed

lemma wf_close:
  assumes "wf_pool s"
  shows "wf_pool (snd (close rt n s))"
proof (cases "map_of (clients s) n")
  case None
  with assms show ?thesis by (simp add: close_None)
next
  case (Some r)
  note f = close_Some[OF Some, of rt]
  show ?thesis using assms
  proof (rule wf_pool_shrink)
    show "set (clients (snd (close rt n s))) \<subseteq> set (clients s)"
      by (auto simp: f(2) AList.delete_eq)
    show "distinct (map fst (clients (snd (close rt n s))))"
      using assms by (simp add: f(2) distinct_delete wf_pool_def)
  qed (simp_all add: f)
qed

lemma wf_closeAll_loop: "wf_pool s \<Longrightarrow> wf_pool (snd (closeAll_loop rt ns s))"
proof (induction ns arbitrary: s)
  case Nil
  then show ?case by simp
next
  case (Cons n ns)
  have w: "wf_pool (snd (close rt n s))" by (rule wf_close[OF Cons.prems])
  from Cons.IH[OF w] w show ?case
    by (cases "close rt n s") (auto split: sum.splits)
qed

lemma wf_closeAll: "wf_pool s \<Longrightarrow> wf_pool (snd (closeAll rt s))"
  by (simp add: closeAll_def wf_closeAll_loop)

section \<open>Reconnecting\<close>

lemma catch_reconnect_fails:
  assumes look: "map_of (clients s1) serverName = Some r"
    and cond: "\<not> connected (heap s1 r) \<or> isConnectionError err"
    and c: "connect rt (config (heap s1 r)) (teardown rt serverName r s1) = (Inl cerr, s2)"
  shows "callTool_catch rt serverName toolName args r err s1 = (Inl cerr, s2)"
    and "map_of (clients s2) serverName = None"
proof -
  have rc: "reconnect rt serverName s1 = (Inl cerr, s2)"
    using look c by (simp add: reconnect_def Let_def teardown_fields)
  with cond show "callTool_catch rt serverName toolName args r err s1 = (Inl cerr, s2)"
    by (simp add: callTool_catch_def)
  from reconnect_Inl(2)[OF look rc] show "map_of (clients s2) serverName = None" .
qed

text \<open>
  Claim C10. When the first call fails, the reconnect is due (the session is marked
  disconnected or the failure is classified), and the \<^verbatim>\<open>connect\<close> inside the reconnect
  fails, then \<^verbatim>\<open>callTool\<close> rejects with the failure of that \<^verbatim>\<open>connect\<close>, and the pool has
  no session under the name any more: the entry was deleted before the \<^verbatim>\<open>connect\<close>. The
  first call is made in the pool \<open>s0\<close> the advisory check leaves when it returns.
\<close>

theorem failed_reconnect_drops_session:
  assumes "map_of (clients s) serverName = Some r"
    and "checked rt serverName toolName args r s = (Inr (), s0)"
    and "attempt rt toolName args r s0 = (Inl err, s1)"
    and "\<not> connected (heap s1 r) \<or> isConnectionError err"
    and "connect rt (config (heap s r)) (teardown rt serverName r s1) = (Inl cerr, s2)"
  shows "callTool rt serverName toolName args s = (Inl cerr, s2)
       \<and> map_of (clients s2) serverName = None
       \<and> getStatus serverName s2 = \<lparr>status_connected = False\<rparr>"
proof -
  note f = attempt_fields[OF assms(3)]
  note g = checked_fields[OF assms(2)]
  have look1: "map_of (clients s1) serverName = Some r" using assms(1) by (simp add: f(1) g(1))
  have cfg: "config (heap s1 r) = config (heap s r)" by (simp add: f(4) g(2))
  from assms(5) have c: "connect rt (config (heap s1 r)) (teardown rt serverName r s1) = (Inl cerr, s2)"
    by (simp add: cfg)
  note k1 = catch_reconnect_fails(1)[OF look1 assms(4) c, of toolName args]
  note k2 = catch_reconnect_fails(2)[OF look1 assms(4) c]
  have "callTool rt serverName toolName args s = callTool_catch rt serverName toolName args r err s1"
    using assms(1,2,3) by (simp add: callTool_def)
  with k1 k2 show ?thesis by (simp add: getStatus_def)
qed

text \<open>
  A run: the call fails with \<^verbatim>\<open>Connection closed\<close>, and the handshake of the reconnect
  fails with \<^verbatim>\<open>spawn node ENOENT\<close>. The caller sees the second failure and the pool has
  lost the session.
\<close>

theorem failed_reconnect_drops_session_witness:
  "map_of (clients (demo_pool (idle\<lparr>calls := [([], Inl (Error ''Connection closed''))],
                                    connects := [Inl (Error ''spawn node ENOENT'')]\<rparr>))) ''srv'' = Some 0
   \<and> isConnectionError (Error ''Connection closed'')
   \<and> fst (callTool scripted ''srv'' ''weather'' (JObject [])
           (demo_pool (idle\<lparr>calls := [([], Inl (Error ''Connection closed''))],
                            connects := [Inl (Error ''spawn node ENOENT'')]\<rparr>)))
       = Inl (Error ''spawn node ENOENT'')
   \<and> clients (snd (callTool scripted ''srv'' ''weather'' (JObject [])
           (demo_pool (idle\<lparr>calls := [([], Inl (Error ''Connection closed''))],
                            connects := [Inl (Error ''spawn node ENOENT'')]\<rparr>)))) = []
   \<and> getStatus ''srv'' (snd (callTool scripted ''srv'' ''weather'' (JObject [])
           (demo_pool (idle\<lparr>calls := [([], Inl (Error ''Connection closed''))],
                            connects := [Inl (Error ''spawn node ENOENT'')]\<rparr>))))
       = \<lparr>status_connected = False\<rparr>"
  using failed_reconnect_drops_session
    [of "demo_pool (idle\<lparr>calls := [([], Inl (Error ''Connection closed''))],
                         connects := [Inl (Error ''spawn node ENOENT'')]\<rparr>)"
        "''srv''" 0 scripted "''weather''" "JObject []"
        "demo_pool (idle\<lparr>calls := [([], Inl (Error ''Connection closed''))],
                         connects := [Inl (Error ''spawn node ENOENT'')]\<rparr>)"
        "Error ''Connection closed''"
        "snd (attempt scripted ''weather'' (JObject []) 0
           (demo_pool (idle\<lparr>calls := [([], Inl (Error ''Connection closed''))],
                            connects := [Inl (Error ''spawn node ENOENT'')]\<rparr>)))"
        "Error ''spawn node ENOENT''"
        "snd (callTool scripted ''srv'' ''weather'' (JObject [])
           (demo_pool (idle\<lparr>calls := [([], Inl (Error ''Connection closed''))],
                            connects := [Inl (Error ''spawn node ENOENT'')]\<rparr>)))"]
  by (simp add: run_defs isConnectionError_def warnOnSchemaViolations_def)

section \<open>A reconnect replaces the session\<close>

lemma reconnect_wf_Inr:
  assumes wf: "wf_pool s" and look: "map_of (clients s) serverName = Some r"
    and rc: "reconnect rt serverName s = (Inr u, s')"
  shows "map_of (clients s') serverName = Some (next_id s)"
    and "next_id s \<noteq> r"
    and "\<exists>tr. createTransport rt (next_id s) (config (heap s r)) = Inr tr
           \<and> heap s' (next_id s) = \<lparr>config = config (heap s r), client = next_id s, transport = tr,
                                      connected = True, toolSchemas = Map.empty\<rparr>
           \<and> requests (trace s') = requests (trace s) @ [TransportClose r, ClientConnect (next_id s) tr]"
proof -
  note w = wf_pool_lookup[OF wf look]
  note f = reconnect_Inr[OF look rc]
  show "map_of (clients s') serverName = Some (next_id s)" by (simp add: f(2) w(2))
  show "next_id s \<noteq> r" using w(1) by simp
  from f(1) show "\<exists>tr. createTransport rt (next_id s) (config (heap s r)) = Inr tr
           \<and> heap s' (next_id s) = \<lparr>config = config (heap s r), client = next_id s, transport = tr,
                                      connected = True, toolSchemas = Map.empty\<rparr>
           \<and> requests (trace s') = requests (trace s) @ [TransportClose r, ClientConnect (next_id s) tr]"
    by (simp add: w(4))
qed

lemma listTools_Inr:
  assumes "map_of (clients s) n = Some r" and "listTools rt n s = (Inr tools, s')"
  shows "toolSchemas (heap s' r) = store_schemas tools (toolSchemas (heap s r))"
    and "clients s' = clients s"
    and "requests (trace s') = requests (trace s) @ [ClientListTools (client (heap s r))]"
proof -
  from assms obtain s1 where
    a: "await (ClientListTools (client (heap s r))) (client_listTools rt (client (heap s r))) s
          = (Inr tools, s1)"
    and s': "s' = s1\<lparr>heap := (heap s1)(r := (heap s1 r)
                      \<lparr>toolSchemas := store_schemas tools (toolSchemas (heap s1 r))\<rparr>)\<rparr>"
    by (auto simp: listTools_def split: prod.splits sum.splits)
  note f = await_fields[OF a]
  show "toolSchemas (heap s' r) = store_schemas tools (toolSchemas (heap s r))"
    by (simp add: s' f(7))
  show "clients s' = clients s" by (simp add: s' f(1))
  show "requests (trace s') = requests (trace s) @ [ClientListTools (client (heap s r))]"
    by (simp add: s' f(8))
qed

text \<open>
  Claim C7. After a reconnect that succeeded, the name maps to a session object that did
  not exist before. It holds the descriptor of the old session, a transport newly built
  from that descriptor, the flag \<^verbatim>\<open>connected\<close>, and an empty schema table, so the advisory
  check is silent for every tool and arguments until a discovery fills the table again;
  the old transport was asked to close. The pool still has at most one entry per name.
\<close>

theorem reconnect_replaces_session:
  assumes "wf_pool s" and "map_of (clients s) serverName = Some r"
    and "reconnect rt serverName s = (Inr u, s')"
  shows "map_of (clients s') serverName = Some (next_id s)
       \<and> next_id s \<noteq> r
       \<and> (\<exists>tr. createTransport rt (next_id s) (config (heap s r)) = Inr tr
              \<and> transport_id tr \<noteq> transport_id (transport (heap s r))
              \<and> heap s' (next_id s)
                  = \<lparr>config = config (heap s r), client = next_id s, transport = tr,
                     connected = True, toolSchemas = Map.empty\<rparr>
              \<and> requests (trace s')
                  = requests (trace s) @ [TransportClose (transport_id (transport (heap s r))),
                                          ClientConnect (next_id s) tr])
       \<and> warnOnSchemaViolations rt serverName toolName args
            (toolSchemas (heap s' (next_id s))) = ([], Inr ())
       \<and> (listTools rt serverName s' = (Inr tools, s'') \<longrightarrow>
            toolSchemas (heap s'' (next_id s)) = store_schemas tools Map.empty)
       \<and> wf_pool s' \<and> distinct (map fst (clients s'))"
proof -
  note w = wf_pool_lookup[OF assms(1,2)]
  note k = reconnect_wf_Inr[OF assms]
  from k(3) obtain tr where tr: "createTransport rt (next_id s) (config (heap s r)) = Inr tr"
    and h: "heap s' (next_id s) = \<lparr>config = config (heap s r), client = next_id s, transport = tr,
                                   connected = True, toolSchemas = Map.empty\<rparr>"
    and q: "requests (trace s') = requests (trace s) @ [TransportClose r, ClientConnect (next_id s) tr]"
    by blast
  have wf': "wf_pool s'" using assms(3,1) by (rule wf_reconnect)
  have a: "transport_id tr \<noteq> transport_id (transport (heap s r))"
    using createTransport_id[OF tr] w(4) k(2) by simp
  have b: "warnOnSchemaViolations rt serverName toolName args
            (toolSchemas (heap s' (next_id s))) = ([], Inr ())"
    by (simp add: h warnOnSchemaViolations_def)
  have c: "toolSchemas (heap s'' (next_id s)) = store_schemas tools Map.empty"
    if "listTools rt serverName s' = (Inr tools, s'')"
    using listTools_Inr(1)[OF k(1) that] by (simp add: h)
  from k(1,2) tr a h q b c wf' show ?thesis
    by (simp add: w(4) wf_pool_def)
qed

text \<open>
  A run: discovery stored the schema of \<^verbatim>\<open>weather\<close>, so the check warns about empty
  arguments; after the reconnect the new session has no schema and the check is silent;
  the next discovery stores the schema in the new session.
\<close>

theorem reconnect_replaces_session_witness:
  "wf_pool weather_pool
   \<and> map_of (clients weather_pool) ''srv'' = Some 0
   \<and> toolSchemas (heap weather_pool 0) ''weather'' = Some (of_ToolSchema city_schema)
   \<and> warnOnSchemaViolations scripted ''srv'' ''weather'' (JObject [])
        (toolSchemas (heap weather_pool 0))
       = ([''[mcp-adapter] srv/weather: missing required field '' @ dquote ''city''], Inr ())
   \<and> fst (reconnect scripted ''srv'' weather_pool) = Inr ()
   \<and> map_of (clients (snd (reconnect scripted ''srv'' weather_pool))) ''srv'' = Some 1
   \<and> heap (snd (reconnect scripted ''srv'' weather_pool)) 1 = demo_entry 1
   \<and> warnOnSchemaViolations scripted ''srv'' ''weather'' (JObject [])
        (toolSchemas (heap (snd (reconnect scripted ''srv'' weather_pool)) 1)) = ([], Inr ())
   \<and> requests (trace (snd (reconnect scripted ''srv'' weather_pool)))
       = [ClientConnect 0 (demo_transport 0), ClientListTools 0, TransportClose 0,
          ClientConnect 1 (demo_transport 1)]
   \<and> toolSchemas (heap (snd (listTools scripted ''srv''
                                (snd (reconnect scripted ''srv'' weather_pool)))) 1) ''weather''
       = Some (of_ToolSchema city_schema)"
  using reconnect_replaces_session
    [of weather_pool "''srv''" 0 scripted "()" "snd (reconnect scripted ''srv'' weather_pool)"
        "''weather''" "JObject []" "[weather_tool]"
        "snd (listTools scripted ''srv'' (snd (reconnect scripted ''srv'' weather_pool)))"]
  by (simp add: run_defs weather_pool_def weather_tool_def wf_pool_def check_defs city_schema_def)

section \<open>One reconnect and one retry\<close>






text \<open>
  The test of the specification: the transport fails the first \<open>N\<close> calls with
  \<^verbatim>\<open>Connection closed\<close> and then succeeds. One \<^verbatim>\<open>callTool\<close> succeeds exactly when \<open>N\<close> is
  at most one.
\<close>

lemma at_most_one_retry:
  "(\<exists>res. fst (callTool scripted ''srv'' ''weather'' (JObject [])
              (demo_pool (idle\<lparr>calls := replicate N ([], Inl (Error ''Connection closed''))\<rparr>)))
          = Inr res) \<longleftrightarrow> N \<le> 1"
proof -
  consider "N = 0" | "N = 1" | k where "N = Suc (Suc k)"
    by (metis One_nat_def not0_implies_Suc)
  then show ?thesis
    by cases
      (simp_all add: run_defs isConnectionError_def warnOnSchemaViolations_def)
qed

section \<open>The advisory check and the call\<close>

lemma prefix_trace_deliver: "prefix (trace s) (trace (deliver sigs s))"
proof (induction sigs arbitrary: s)
  case Nil
  then show ?case by simp
next
  case (Cons sig sigs)
  have "prefix (trace s) (trace (deliver_signal sig s))"
    by (cases sig) (simp_all split: option.splits)
  also have "prefix \<dots> (trace (deliver sigs (deliver_signal sig s)))" by (rule Cons.IH)
  finally show ?case by simp
qed

lemma prefix_trace_await:
  assumes "await ev eff s = (out, s1)"
  shows "prefix (trace s @ [ev]) (trace s1)"
proof -
  from assms obtain sigs w where
    s1: "s1 = deliver sigs (s\<lparr>world := w, trace := trace s @ [ev]\<rparr>)"
    by (auto simp: await_def split: prod.splits)
  show ?thesis
    using prefix_trace_deliver[of "s\<lparr>world := w, trace := trace s @ [ev]\<rparr>" sigs]
    by (simp add: s1)
qed

lemma prefix_trace_await': "await ev eff s = (out, s1) \<Longrightarrow> prefix (trace s) (trace s1)"
  using prefix_trace_await[of ev eff s out s1] by (auto simp: prefix_def)

lemma prefix_trace_teardown: "prefix (trace s) (trace (teardown rt n r s))"
proof -
  let ?s0 = "emit (Console LogLevel (''[mcp-adapter] Reconnecting to '' @ n @ ''...'') None) s"
  obtain out s1 where a: "await (TransportClose (transport_id (transport (heap ?s0 r))))
                (transport_close rt (transport_id (transport (heap ?s0 r)))) ?s0 = (out, s1)"
    by (cases "await (TransportClose (transport_id (transport (heap ?s0 r))))
                (transport_close rt (transport_id (transport (heap ?s0 r)))) ?s0")
  have "prefix (trace s) (trace ?s0)" by simp
  also have "prefix \<dots> (trace s1)" using a by (rule prefix_trace_await')
  also have "prefix \<dots> (trace (teardown rt n r s))"
    using a by (cases out) (simp_all add: teardown_def Let_def)
  finally show ?thesis .
qed

lemma prefix_trace_connect:
  assumes "connect rt cfg s = (out, s')"
  shows "prefix (trace s) (trace s')"
proof (cases "createTransport rt (next_id s) cfg")
  case (Inl e)
  with assms show ?thesis by (auto simp: connect_def Let_def)
next
  case (Inr tr)
  let ?s0 = "s\<lparr>next_id := Suc (next_id s)\<rparr>"
  obtain o1 s1 where a: "await (ClientConnect (next_id s) tr) (client_connect rt (next_id s) tr) ?s0
                           = (o1, s1)"
    by (cases "await (ClientConnect (next_id s) tr) (client_connect rt (next_id s) tr) ?s0")
  have "prefix (trace s) (trace s1)" using prefix_trace_await'[OF a] by simp
  moreover have "trace s' = trace s1"
    using assms Inr a by (cases o1) (auto simp: connect_def Let_def)
  ultimately show ?thesis by simp
qed

lemma prefix_trace_reconnect:
  assumes "reconnect rt n s = (out, s')"
  shows "prefix (trace s) (trace s')"
proof (cases "map_of (clients s) n")
  case None
  with assms show ?thesis by (simp add: reconnect_def)
next
  case (Some r)
  let ?s3 = "teardown rt n r s"
  obtain cout s4 where c: "connect rt (config (heap ?s3 r)) ?s3 = (cout, s4)"
    by (cases "connect rt (config (heap ?s3 r)) ?s3")
  have "prefix (trace s) (trace ?s3)" by (rule prefix_trace_teardown)
  also have "prefix \<dots> (trace s4)" using c by (rule prefix_trace_connect)
  also have "prefix \<dots> (trace s')"
    using assms Some c by (cases cout) (auto simp: reconnect_def Let_def)
  finally show ?thesis .
qed

lemma prefix_trace_attempt:
  "attempt rt toolName args r s = (out, s1) \<Longrightarrow> prefix (trace s) (trace s1)"
  unfolding attempt_def by (rule prefix_trace_await')

lemma prefix_trace_catch:
  assumes "callTool_catch rt n toolName args r err s = (out, s')"
  shows "prefix (trace s) (trace s')"
proof (cases "\<not> connected (heap s r) \<or> isConnectionError err")
  case False
  with assms show ?thesis by (simp add: callTool_catch_def)
next
  case True
  obtain rout s2 where rc: "reconnect rt n s = (rout, s2)" by (cases "reconnect rt n s")
  have p2: "prefix (trace s) (trace s2)" using rc by (rule prefix_trace_reconnect)
  show ?thesis
  proof (cases rout)
    case (Inl e)
    with assms True rc p2 show ?thesis by (simp add: callTool_catch_def)
  next
    case (Inr u)
    show ?thesis
    proof (cases "map_of (clients s2) n")
      case None
      with assms True rc Inr p2 show ?thesis by (simp add: callTool_catch_def)
    next
      case (Some r')
      with assms True rc Inr have "attempt rt toolName args r' s2 = (out, s')"
        by (simp add: callTool_catch_def)
      from p2 prefix_trace_attempt[OF this] show ?thesis by (rule prefix_order.trans)
    qed
  qed
qed

subsection \<open>Pools that are alike stay alike\<close>

lemma alike_refl [simp]: "alike s s"
  by (simp add: alike_def)

lemma alike_console: "alike s t \<Longrightarrow> alike (emit (Console l m e) s) t"
  "alike s t \<Longrightarrow> alike s (emit (Console l m e) t)"
  by (simp_all add: alike_def)

lemma alike_warn_all: "alike s t \<Longrightarrow> alike (warn_all ms s) (warn_all ms' t)"
  by (simp add: alike_def)

lemma alike_markDisconnected:
  "alike s t \<Longrightarrow> alike (markDisconnected n s) (markDisconnected n t)"
  by (auto simp: alike_def markDisconnected_heap)

lemma alike_deliver_signal:
  "alike s t \<Longrightarrow> alike (deliver_signal sig s) (deliver_signal sig t)"
proof (cases sig)
  case (OnError tid err)
  assume a: "alike s t"
  then have l: "listeners s = listeners t" by (simp add: alike_def)
  show ?thesis
    using a by (auto simp: OnError l split: option.splits
        intro!: alike_markDisconnected alike_console)
next
  case (OnClose tid)
  assume a: "alike s t"
  then have l: "listeners s = listeners t" by (simp add: alike_def)
  show ?thesis
    using a by (auto simp: OnClose l split: option.splits
        intro!: alike_markDisconnected alike_console)
qed

lemma alike_deliver: "alike s t \<Longrightarrow> alike (deliver sigs s) (deliver sigs t)"
  by (induction sigs arbitrary: s t) (simp_all add: alike_deliver_signal)

lemma alike_step:
  "alike s t \<Longrightarrow> alike (s\<lparr>world := w, trace := trace s @ [ev]\<rparr>) (t\<lparr>world := w, trace := trace t @ [ev]\<rparr>)"
  by (simp add: alike_def)

lemma alike_await:
  assumes "alike s t"
  shows "fst (await ev eff s) = fst (await ev eff t)"
    and "alike (snd (await ev eff s)) (snd (await ev eff t))"
proof -
  from assms have w: "world s = world t" by (simp add: alike_def)
  show "fst (await ev eff s) = fst (await ev eff t)"
    by (simp add: await_def w split: prod.splits)
  show "alike (snd (await ev eff s)) (snd (await ev eff t))"
    using assms by (auto simp: await_def w split: prod.splits intro!: alike_deliver alike_step)
qed

lemma alike_attempt:
  assumes "alike s t"
  shows "fst (attempt rt toolName args r s) = fst (attempt rt toolName args r t)"
    and "alike (snd (attempt rt toolName args r s)) (snd (attempt rt toolName args r t))"
proof -
  from assms have c: "client (heap s r) = client (heap t r)" by (simp add: alike_def)
  show "fst (attempt rt toolName args r s) = fst (attempt rt toolName args r t)"
    unfolding attempt_def c by (rule alike_await(1)[OF assms])
  show "alike (snd (attempt rt toolName args r s)) (snd (attempt rt toolName args r t))"
    unfolding attempt_def c by (rule alike_await(2)[OF assms])
qed

lemma alike_teardown:
  assumes "alike s t"
  shows "alike (teardown rt n r s) (teardown rt n r t)"
proof -
  let ?e = "Console LogLevel (''[mcp-adapter] Reconnecting to '' @ n @ ''...'') None"
  from assms have tr: "transport (heap s r) = transport (heap t r)" by (simp add: alike_def)
  have a0: "alike (emit ?e s) (emit ?e t)" using assms by (simp add: alike_def)
  let ?ev = "TransportClose (transport_id (transport (heap t r)))"
  let ?eff = "transport_close rt (transport_id (transport (heap t r)))"
  note k = alike_await[OF a0, of ?ev ?eff]
  obtain o1 s1 where s1: "await ?ev ?eff (emit ?e s) = (o1, s1)" by (cases "await ?ev ?eff (emit ?e s)")
  obtain o2 t1 where t1: "await ?ev ?eff (emit ?e t) = (o2, t1)" by (cases "await ?ev ?eff (emit ?e t)")
  from k s1 t1 have eq: "o1 = o2" and al: "alike s1 t1" by simp_all
  have "alike (case o2 of Inl err \<Rightarrow> emit (Console WarnLevel
                                    (''[mcp-adapter] '' @ n @ '' close error during reconnect:'')
                                    (Some err)) s1 | Inr u \<Rightarrow> s1)
              (case o2 of Inl err \<Rightarrow> emit (Console WarnLevel
                                    (''[mcp-adapter] '' @ n @ '' close error during reconnect:'')
                                    (Some err)) t1 | Inr u \<Rightarrow> t1)"
    using al by (cases o2) (simp_all add: alike_def)
  then show ?thesis
    using s1 t1 eq by (simp add: teardown_def Let_def tr alike_def)
qed

lemma alike_connect:
  assumes "alike s t"
  shows "fst (connect rt cfg s) = fst (connect rt cfg t)"
    and "alike (snd (connect rt cfg s)) (snd (connect rt cfg t))"
proof -
  from assms have n: "next_id s = next_id t" by (simp add: alike_def)
  have a0: "alike (s\<lparr>next_id := Suc (next_id t)\<rparr>) (t\<lparr>next_id := Suc (next_id t)\<rparr>)"
    using assms by (simp add: alike_def)
  have both: "fst (connect rt cfg s) = fst (connect rt cfg t)
              \<and> alike (snd (connect rt cfg s)) (snd (connect rt cfg t))"
  proof (cases "createTransport rt (next_id t) cfg")
    case (Inl e)
    with a0 show ?thesis by (simp add: connect_def Let_def n)
  next
    case (Inr tr)
    let ?ev = "ClientConnect (next_id t) tr"
    let ?eff = "client_connect rt (next_id t) tr"
    note k = alike_await[OF a0, of ?ev ?eff]
    obtain o1 s1 where s1: "await ?ev ?eff (s\<lparr>next_id := Suc (next_id t)\<rparr>) = (o1, s1)"
      by (cases "await ?ev ?eff (s\<lparr>next_id := Suc (next_id t)\<rparr>)")
    obtain o2 t1 where t1: "await ?ev ?eff (t\<lparr>next_id := Suc (next_id t)\<rparr>) = (o2, t1)"
      by (cases "await ?ev ?eff (t\<lparr>next_id := Suc (next_id t)\<rparr>)")
    from k s1 t1 have eq: "o1 = o2" and al: "alike s1 t1" by simp_all
    show ?thesis
    proof (cases o2)
      case (Inl e)
      with Inr s1 t1 eq al show ?thesis by (simp add: connect_def Let_def n)
    next
      case (Inr u)
      with \<open>createTransport rt (next_id t) cfg = Inr tr\<close> s1 t1 eq al show ?thesis
        by (simp add: connect_def Let_def n alike_def)
    qed
  qed
  then show "fst (connect rt cfg s) = fst (connect rt cfg t)"
    and "alike (snd (connect rt cfg s)) (snd (connect rt cfg t))" by simp_all
qed

lemma alike_reconnect:
  assumes "alike s t"
  shows "fst (reconnect rt n s) = fst (reconnect rt n t)"
    and "alike (snd (reconnect rt n s)) (snd (reconnect rt n t))"
proof -
  from assms have c: "clients s = clients t" by (simp add: alike_def)
  have both: "fst (reconnect rt n s) = fst (reconnect rt n t)
              \<and> alike (snd (reconnect rt n s)) (snd (reconnect rt n t))"
  proof (cases "map_of (clients t) n")
    case None
    with assms show ?thesis by (simp add: reconnect_def c)
  next
    case (Some r)
    have a3: "alike (teardown rt n r s) (teardown rt n r t)" by (rule alike_teardown[OF assms])
    then have cfg: "config (heap (teardown rt n r s) r) = config (heap (teardown rt n r t) r)"
      by (simp add: alike_def)
    let ?cfg = "config (heap (teardown rt n r t) r)"
    note k = alike_connect[OF a3, of rt ?cfg]
    obtain o1 s4 where s4: "connect rt ?cfg (teardown rt n r s) = (o1, s4)"
      by (cases "connect rt ?cfg (teardown rt n r s)")
    obtain o2 t4 where t4: "connect rt ?cfg (teardown rt n r t) = (o2, t4)"
      by (cases "connect rt ?cfg (teardown rt n r t)")
    from k s4 t4 have eq: "o1 = o2" and al: "alike s4 t4" by simp_all
    show ?thesis
      using Some s4 t4 eq al
      by (cases o2) (simp_all add: reconnect_def Let_def c cfg alike_def)
  qed
  then show "fst (reconnect rt n s) = fst (reconnect rt n t)"
    and "alike (snd (reconnect rt n s)) (snd (reconnect rt n t))" by simp_all
qed

lemma alike_catch:
  assumes "alike s t"
  shows "fst (callTool_catch rt n toolName args r err s) = fst (callTool_catch rt n toolName args r err t)
       \<and> alike (snd (callTool_catch rt n toolName args r err s))
               (snd (callTool_catch rt n toolName args r err t))"
proof -
  from assms have cn: "connected (heap s r) = connected (heap t r)" by (simp add: alike_def)
  show ?thesis
  proof (cases "\<not> connected (heap t r) \<or> isConnectionError err")
    case False
    with assms show ?thesis by (simp add: callTool_catch_def cn)
  next
    case True
    note k = alike_reconnect[OF assms, of rt n]
    obtain o1 s2 where s2: "reconnect rt n s = (o1, s2)" by (cases "reconnect rt n s")
    obtain o2 t2 where t2: "reconnect rt n t = (o2, t2)" by (cases "reconnect rt n t")
    from k s2 t2 have eq: "o1 = o2" and al: "alike s2 t2" by simp_all
    from al have c2: "clients s2 = clients t2" by (simp add: alike_def)
    show ?thesis
    proof (cases o2)
      case (Inl e)
      with True s2 t2 eq al show ?thesis by (simp add: callTool_catch_def cn)
    next
      case (Inr u)
      show ?thesis
      proof (cases "map_of (clients t2) n")
        case None
        with True Inr s2 t2 eq al show ?thesis by (simp add: callTool_catch_def cn c2)
      next
        case (Some r')
        with True Inr s2 t2 eq alike_attempt[OF al, of rt toolName args r'] show ?thesis
          by (simp add: callTool_catch_def cn c2)
      qed
    qed
  qed
qed

lemma alike_checked:
  assumes "alike s t"
  shows "alike (snd (checked rt n toolName args r s)) (snd (checked rt n toolName args r t))"
  using assms by (auto simp: checked_def split: prod.splits intro: alike_warn_all)

text \<open>
  What the check found has no influence on an invocation it lets through: started on a
  pool that differs only in its schema tables and console lines, with a check that ends
  the same way, \<^verbatim>\<open>callTool\<close> has the same outcome and leaves the same sessions, outside
  state and requests.
\<close>

lemma alike_callTool:
  assumes "alike s t"
    and "\<And>r. map_of (clients s) n = Some r \<Longrightarrow>
           fst (checked rt n toolName args r s) = fst (checked rt n toolName args r t)"
  shows "fst (callTool rt n toolName args s) = fst (callTool rt n toolName args t)
       \<and> alike (snd (callTool rt n toolName args s)) (snd (callTool rt n toolName args t))"
proof -
  from assms(1) have c: "clients s = clients t" by (simp add: alike_def)
  show ?thesis
  proof (cases "map_of (clients t) n")
    case None
    with assms(1) show ?thesis by (simp add: callTool_def c)
  next
    case (Some r)
    obtain c1 s0 where s0: "checked rt n toolName args r s = (c1, s0)"
      by (cases "checked rt n toolName args r s")
    obtain c2 t0 where t0: "checked rt n toolName args r t = (c2, t0)"
      by (cases "checked rt n toolName args r t")
    from assms(2) [of r] Some s0 t0 have ceq: "c1 = c2" by (simp add: c)
    from alike_checked [OF assms(1), of rt n toolName args r] s0 t0
    have a0: "alike s0 t0" by simp
    show ?thesis
    proof (cases c2)
      case (Inl e)
      with Some s0 t0 ceq a0 show ?thesis by (simp add: callTool_def c)
    next
      case u: (Inr u)
      note k = alike_attempt[OF a0, of rt toolName args r]
      obtain o1 s1 where s1: "attempt rt toolName args r s0 = (o1, s1)"
        by (cases "attempt rt toolName args r s0")
      obtain o2 t1 where t1: "attempt rt toolName args r t0 = (o2, t1)"
        by (cases "attempt rt toolName args r t0")
      from k s1 t1 have eq: "o1 = o2" and al: "alike s1 t1" by simp_all
      show ?thesis
      proof (cases o2)
        case (Inr res)
        with Some s0 t0 ceq u s1 t1 eq al show ?thesis by (simp add: callTool_def c)
      next
        case (Inl err)
        with Some s0 t0 ceq u s1 t1 eq alike_catch[OF al, of rt n toolName args r err] show ?thesis
          by (simp add: callTool_def c)
      qed
    qed
  qed
qed

text \<open>
  When the check returns, \<^verbatim>\<open>callTool\<close> has written its lines to the console as warnings,
  which changes nothing else in the pool, and the next thing it does is the call on the
  session's client.
\<close>

lemma check_returns_then_call:
  assumes "map_of (clients s) serverName = Some r"
    and "warnOnSchemaViolations rt serverName toolName args (toolSchemas (heap s r)) = (ms, Inr ())"
  shows "\<exists>rest. trace (snd (callTool rt serverName toolName args s))
             = trace s @ map (\<lambda>m. Console WarnLevel m None) ms
               @ ClientCallTool (client (heap s r)) toolName args # rest"
proof -
  let ?s0 = "warn_all ms s"
  have chk: "checked rt serverName toolName args r s = (Inr (), ?s0)"
    using assms(2) by (simp add: checked_def)
  obtain o1 s1 where a: "attempt rt toolName args r ?s0 = (o1, s1)"
    by (cases "attempt rt toolName args r ?s0")
  have p1: "prefix (trace ?s0 @ [ClientCallTool (client (heap s r)) toolName args]) (trace s1)"
    using a unfolding attempt_def by (auto dest: prefix_trace_await)
  have "prefix (trace s1) (trace (snd (callTool rt serverName toolName args s)))"
  proof (cases o1)
    case (Inr res)
    with assms(1) chk a show ?thesis by (simp add: callTool_def)
  next
    case (Inl err)
    obtain out s' where c: "callTool_catch rt serverName toolName args r err s1 = (out, s')"
      by (cases "callTool_catch rt serverName toolName args r err s1")
    with assms(1) chk a Inl have "snd (callTool rt serverName toolName args s) = s'"
      by (simp add: callTool_def)
    with prefix_trace_catch[OF c] show ?thesis by simp
  qed
  with p1 have "prefix (trace ?s0 @ [ClientCallTool (client (heap s r)) toolName args])
                  (trace (snd (callTool rt serverName toolName args s)))"
    by (rule prefix_order.trans)
  then obtain rest where
    "trace (snd (callTool rt serverName toolName args s))
       = (trace ?s0 @ [ClientCallTool (client (heap s r)) toolName args]) @ rest"
    by (auto simp: prefix_def)
  then have "trace (snd (callTool rt serverName toolName args s))
       = trace s @ map (\<lambda>m. Console WarnLevel m None) ms
         @ ClientCallTool (client (heap s r)) toolName args # rest"
    by (simp add: warn_all_trace)
  then show ?thesis by blast
qed

text \<open>
  A run on a schema of the declared shape: the schema on file requires \<^verbatim>\<open>city\<close>, the
  arguments are empty; the warning is written, the call is made and its result comes
  back.
\<close>

lemma warned_call_is_made:
  "fst (callTool scripted ''srv'' ''weather'' (JObject []) weather_pool) = Inr ok_result"
  "trace (snd (callTool scripted ''srv'' ''weather'' (JObject []) weather_pool))
     = [ClientConnect 0 (demo_transport 0), ClientListTools 0,
        Console WarnLevel
          (''[mcp-adapter] srv/weather: missing required field '' @ dquote ''city'') None,
        ClientCallTool 0 ''weather'' (JObject [])]"
  by (simp_all add: run_defs weather_pool_def weather_tool_def check_defs city_schema_def)

text \<open>
  A schema that is not of the declared shape can make the check throw. A \<^verbatim>\<open>required\<close> that
  is not a list cannot be iterated; and the warnings written before a throw stay.
\<close>

lemma required_not_iterable_throws:
  "warnOnSchemaViolations scripted ''srv'' ''t'' (JObject [])
     [''t'' \<mapsto> JObject [(''type'', JString ''object''), (''required'', JBoolean True)]]
   = ([], Inl (TypeError ''schema.required is not iterable''))"
  by (simp add: check_defs)

lemma warnings_before_the_throw:
  "warnOnSchemaViolations scripted ''srv'' ''t'' (JObject [(''x'', JNumber 1)])
     [''t'' \<mapsto> JObject [(''required'', JArray [JString ''city'']),
                           (''properties'', JObject [(''x'', JNull)])]]
   = ([''[mcp-adapter] srv/t: missing required field '' @ dquote ''city''],
      Inl (TypeError (''Cannot read properties of null (reading '' @ squote ''type'' @ '')'')))"
  by (simp add: check_defs)

text \<open>A declared field that is \<^verbatim>\<open>null\<close> does no harm while the arguments lack the field.\<close>

lemma null_property_unread:
  "warnOnSchemaViolations scripted ''srv'' ''lookup'' (JObject [(''y'', JNumber 1)])
     [''lookup'' \<mapsto> null_schema] = ([], Inr ())"
  by (simp add: check_defs null_schema_def)

text \<open>
  Claim C4 at a failing input. The schema on file for the tool has no usable \<^verbatim>\<open>required\<close>
  and declares, first among its properties, a field as \<^verbatim>\<open>null\<close>; the arguments are an
  object that has the field. The claim says that the check never raises, malformed
  schemas included, and that the call is attempted all the same. In the code the check
  reads \<^verbatim>\<open>prop.type\<close> of the \<^verbatim>\<open>null\<close>, which throws a \<^verbatim>\<open>TypeError\<close>; the check stands before
  the \<^verbatim>\<open>try\<close> of \<^verbatim>\<open>callTool\<close>, so \<^verbatim>\<open>callTool\<close> rejects with that error and leaves the pool as
  it was: nothing is written to the console and no call is requested.
\<close>

theorem malformed_schema_blocks_call:
  assumes "map_of (clients s) serverName = Some r"
    and "toolSchemas (heap s r) toolName = Some schema" and "truthy schema"
    and "\<not> truthy (js_get (inherited rt) schema ''required'')"
    and "js_get (inherited rt) schema ''properties'' = JObject ((field, JNull) # rest)"
    and "typeof args = ''object''" and "args \<noteq> JNull" and "js_in (inherited rt) field args"
  shows "warnOnSchemaViolations rt serverName toolName args (toolSchemas (heap s r))
           = ([], Inl (TypeError (''Cannot read properties of null (reading '' @ squote ''type'' @ '')'')))
       \<and> callTool rt serverName toolName args s
           = (Inl (TypeError (''Cannot read properties of null (reading '' @ squote ''type'' @ '')'')), s)"
proof -
  from assms(3) have nn: "schema \<noteq> JNull" "schema \<noteq> JUndefined" by auto
  have r: "check_required rt pre args schema = ([], Inr ())" for pre
    using assms(4) nn by (simp add: check_required_def js_member_def)
  have p: "check_properties rt pre args schema
             = ([], Inl (TypeError (''Cannot read properties of null (reading '' @ squote ''type'' @ '')'')))"
    for pre
    using assms(5,8) nn
    by (simp add: check_properties_def js_member_def property_warning_def)
  have w: "warnOnSchemaViolations rt serverName toolName args (toolSchemas (heap s r))
           = ([], Inl (TypeError (''Cannot read properties of null (reading '' @ squote ''type'' @ '')'')))"
    using assms(2,3,6,7) r p by (simp add: warnOnSchemaViolations_def Let_def)
  then have "callTool rt serverName toolName args s
           = (Inl (TypeError (''Cannot read properties of null (reading '' @ squote ''type'' @ '')'')), s)"
    using assms(1) by (simp add: callTool_def checked_def)
  with w show ?thesis by simp
qed

text \<open>
  A run: discovery finds the tool \<^verbatim>\<open>lookup\<close> with the schema
  \<^verbatim>\<open>{type: "object", properties: {x: null}}\<close> and stores it; \<^verbatim>\<open>callTool\<close> with the arguments
  \<^verbatim>\<open>{x: 1}\<close> rejects with the \<^verbatim>\<open>TypeError\<close>, and the handshake and the discovery remain the
  only requests made.
\<close>

theorem malformed_schema_blocks_call_witness:
  "map_of (clients (snd (listTools scripted ''srv''
       (demo_pool (idle\<lparr>discoveries := [Inr [lookup_tool]]\<rparr>))))) ''srv'' = Some 0
   \<and> toolSchemas (heap (snd (listTools scripted ''srv''
       (demo_pool (idle\<lparr>discoveries := [Inr [lookup_tool]]\<rparr>)))) 0) ''lookup'' = Some null_schema
   \<and> js_in (inherited scripted) ''x'' (JObject [(''x'', JNumber 1)])
   \<and> fst (callTool scripted ''srv'' ''lookup'' (JObject [(''x'', JNumber 1)])
        (snd (listTools scripted ''srv'' (demo_pool (idle\<lparr>discoveries := [Inr [lookup_tool]]\<rparr>)))))
       = Inl (Thrown ''TypeError'' (''Cannot read properties of null (reading '' @ squote ''type'' @ '')''))
   \<and> trace (snd (callTool scripted ''srv'' ''lookup'' (JObject [(''x'', JNumber 1)])
        (snd (listTools scripted ''srv'' (demo_pool (idle\<lparr>discoveries := [Inr [lookup_tool]]\<rparr>))))))
       = [ClientConnect 0 (demo_transport 0), ClientListTools 0]"
proof -
  let ?P = "snd (listTools scripted ''srv'' (demo_pool (idle\<lparr>discoveries := [Inr [lookup_tool]]\<rparr>)))"
  have look: "map_of (clients ?P) ''srv'' = Some 0"
    by (simp add: run_defs)
  have sch: "toolSchemas (heap ?P 0) ''lookup'' = Some null_schema"
    by (simp add: run_defs lookup_tool_def null_schema_def)
  have tr: "trace ?P = [ClientConnect 0 (demo_transport 0), ClientListTools 0]"
    by (simp add: run_defs)
  have t: "truthy null_schema" by (simp add: null_schema_def)
  have req: "\<not> truthy (js_get (inherited scripted) null_schema ''required'')"
    by (simp add: check_defs null_schema_def)
  have props: "js_get (inherited scripted) null_schema ''properties'' = JObject ((''x'', JNull) # [])"
    by (simp add: check_defs null_schema_def)
  have ty: "typeof (JObject [(''x'', JNumber 1)]) = ''object''" "JObject [(''x'', JNumber 1)] \<noteq> JNull"
    by simp_all
  have isin: "js_in (inherited scripted) ''x'' (JObject [(''x'', JNumber 1)])"
    by (simp add: js_in_map_of)
  note T = malformed_schema_blocks_call [OF look sch t req props ty isin]
  from T have c: "callTool scripted ''srv'' ''lookup'' (JObject [(''x'', JNumber 1)]) ?P
      = (Inl (TypeError (''Cannot read properties of null (reading '' @ squote ''type'' @ '')'')), ?P)"
    by blast
  from c have 1: "fst (callTool scripted ''srv'' ''lookup'' (JObject [(''x'', JNumber 1)]) ?P)
      = Inl (Thrown ''TypeError'' (''Cannot read properties of null (reading '' @ squote ''type'' @ '')''))"
    by (simp add: TypeError_def)
  from c tr have 2: "trace (snd (callTool scripted ''srv'' ''lookup'' (JObject [(''x'', JNumber 1)]) ?P))
      = [ClientConnect 0 (demo_transport 0), ClientListTools 0]"
    by simp
  from look sch isin 1 2 show ?thesis by blast
qed

section \<open>Replacing a session by \<^verbatim>\<open>connect\<close>\<close>

text \<open>
  Claim C8 at a failing input: \<^verbatim>\<open>connect\<close> for a name that already has a session. The
  new session takes the place of the old one in the map, and the only request
  \<^verbatim>\<open>connect\<close> makes is the handshake of the new client: the transport of the replaced
  session is asked to close by this \<^verbatim>\<open>connect\<close> no more than it was before. The sibling
  \<^verbatim>\<open>reconnect\<close> closes the old transport before it calls \<^verbatim>\<open>connect\<close>.
\<close>

theorem connect_replaces_without_closing:
  assumes "wf_pool s" and "map_of (clients s) (name cfg) = Some r"
    and "connect rt cfg s = (Inr c, s')"
  shows "map_of (clients s') (name cfg) = Some (next_id s) \<and> next_id s \<noteq> r
       \<and> transport (heap s' r) = transport (heap s r)
       \<and> (\<exists>tr. requests (trace s') = requests (trace s) @ [ClientConnect (next_id s) tr])
       \<and> (TransportClose (transport_id (transport (heap s r))) \<in> set (trace s')
            \<longleftrightarrow> TransportClose (transport_id (transport (heap s r))) \<in> set (trace s))"
proof -
  note w = wf_pool_lookup[OF assms(1,2)]
  note f = connect_Inr[OF assms(3)]
  have ne: "next_id s \<noteq> r" using w(1) by simp
  from f(4) obtain tr where q: "requests (trace s') = requests (trace s) @ [ClientConnect (next_id s) tr]"
    by blast
  have m: "ev \<in> set (trace t) \<longleftrightarrow> ev \<in> set (requests (trace t))" if "\<not> is_console ev"
    for ev and t :: "'a pool"
    using that by (auto simp: requests_def)
  have "TransportClose (transport_id (transport (heap s r))) \<in> set (trace s')
            \<longleftrightarrow> TransportClose (transport_id (transport (heap s r))) \<in> set (trace s)"
    by (simp add: m q)
  with ne q f(3) f(7)[of r] show ?thesis by auto
qed

text \<open>
  The run: \<^verbatim>\<open>connect(demo_server)\<close> twice on a new pool. Session 1 replaces session 0,
  and transport 0 is never asked to close.
\<close>

theorem connect_replaces_without_closing_witness:
  "wf_pool (demo_pool idle)
   \<and> connect scripted demo_server (new_pool idle) = (Inr 0, demo_pool idle)
   \<and> fst (connect scripted demo_server (demo_pool idle)) = Inr 1
   \<and> clients (snd (connect scripted demo_server (demo_pool idle))) = [(''srv'', 1)]
   \<and> trace (snd (connect scripted demo_server (demo_pool idle)))
       = [ClientConnect 0 (demo_transport 0), ClientConnect 1 (demo_transport 1)]
   \<and> TransportClose 0 \<notin> set (trace (snd (connect scripted demo_server (demo_pool idle))))"
proof -
  let ?s' = "snd (connect scripted demo_server (demo_pool idle))"
  have wf: "wf_pool (demo_pool idle)" by (simp add: run_defs wf_pool_def)
  have look: "map_of (clients (demo_pool idle)) (name demo_server) = Some 0"
    by (simp add: run_defs)
  have c: "connect scripted demo_server (demo_pool idle) = (Inr 1, ?s')"
    by (simp add: run_defs)
  have before: "TransportClose (transport_id (transport (heap (demo_pool idle) 0)))
                  \<notin> set (trace (demo_pool idle))"
    by (simp add: run_defs)
  have tid: "transport_id (transport (heap (demo_pool idle) 0)) = 0" by (simp add: run_defs)
  from connect_replaces_without_closing [OF wf look c] before
  have leak: "TransportClose 0 \<notin> set (trace ?s')" by (simp add: tid)
  have run:
    "connect scripted demo_server (new_pool idle) = (Inr 0, demo_pool idle)"
    "fst (connect scripted demo_server (demo_pool idle)) = Inr 1"
    "clients ?s' = [(''srv'', 1)]"
    "trace ?s' = [ClientConnect 0 (demo_transport 0), ClientConnect 1 (demo_transport 1)]"
    by (simp_all add: run_defs)
  from wf leak run show ?thesis by blast
qed

text \<open>
  The race of two overlapping retries for the same name. Both \<^verbatim>\<open>catch\<close> blocks have read
  the session object 0 from the map before either deleted it; each closes transport 0
  and deletes the name; then each \<^verbatim>\<open>connect\<close> runs. The second \<^verbatim>\<open>connect\<close> replaces
  session 1, and transport 1 is never asked to close.
\<close>

lemma overlapping_reconnects_leak:
  "clients (snd (connect scripted demo_server (snd (connect scripted demo_server
      (teardown scripted ''srv'' 0 (teardown scripted ''srv'' 0 (demo_pool idle)))))))
     = [(''srv'', 2)]"
  "requests (trace (snd (connect scripted demo_server (snd (connect scripted demo_server
      (teardown scripted ''srv'' 0 (teardown scripted ''srv'' 0 (demo_pool idle))))))))
     = [ClientConnect 0 (demo_transport 0), TransportClose 0, TransportClose 0,
        ClientConnect 1 (demo_transport 1), ClientConnect 2 (demo_transport 2)]"
  by (simp_all add: run_defs)

section \<open>The entry points\<close>

lemma reshape_shape:
  "\<exists>txt. resp_content (reshape res) = [\<lparr>resp_type = ''text'', resp_text = txt\<rparr>]"
  "resp_isError (reshape res) = isError res"
  by (simp_all add: reshape_def Let_def)

lemma execute_service_Inr:
  assumes "execute_service rt server toolName params s = (Inr resp, s')"
  shows "\<exists>res. callTool rt (name server) toolName params s = (Inr res, s') \<and> resp = reshape res"
  using assms by (auto simp: execute_service_def split: prod.splits sum.splits)

lemma execute_cached_connected:
  assumes "status_connected (getStatus (name server) s)"
  shows "execute_cached rt server toolName params s = execute_service rt server toolName params s"
  using assms by (simp add: execute_cached_def execute_service_def)

lemma execute_cached_lazy:
  assumes "\<not> status_connected (getStatus (name server) s)"
    and "connect rt server
           (emit (Console LogLevel (''[mcp-adapter] Lazy-connecting to '' @ name server @ ''...'') None) s)
         = (cout, s1)"
  shows "cout = Inl e \<Longrightarrow> execute_cached rt server toolName params s = (Inl e, s1)"
    and "cout = Inr c \<Longrightarrow> listTools rt (name server) s1 = (Inl e, s2)
           \<Longrightarrow> execute_cached rt server toolName params s = (Inl e, s2)"
    and "cout = Inr c \<Longrightarrow> listTools rt (name server) s1 = (Inr tools, s2)
           \<Longrightarrow> execute_cached rt server toolName params s
               = execute_service rt server toolName params s2"
  using assms by (simp_all add: execute_cached_def execute_service_def Let_def)

lemma execute_cached_Inr:
  assumes "execute_cached rt server toolName params s = (Inr resp, s')"
  shows "\<exists>txt. resp_content resp = [\<lparr>resp_type = ''text'', resp_text = txt\<rparr>]"
proof -
  from assms obtain res where "resp = reshape res"
    by (auto simp: execute_cached_def Let_def split: prod.splits sum.splits if_splits)
  then show ?thesis by (simp add: reshape_shape)
qed

text \<open>
  Claim C9, as amended. The entry point registered from the cache connects lazily: when
  \<^verbatim>\<open>getStatus\<close> reports the server connected it does what the other entry point does;
  otherwise it first calls \<^verbatim>\<open>connect\<close> with the server's descriptor and then \<^verbatim>\<open>listTools\<close>,
  gives back the failure of either without invoking, and after both succeeded goes on as
  the other entry point does, on a new session whose schemas are the discovered ones.
  The entry point registered by the service after discovery has no lazy connect: it
  delegates to \<^verbatim>\<open>callTool\<close> at once, which fails with \<^verbatim>\<open>Unknown server\<close> where the pool has
  no session. Whatever either returns when it succeeds has one content item of type
  \<^verbatim>\<open>text\<close>; its \<^verbatim>\<open>isError\<close> is the flag of the call result, absent where that is absent.
\<close>

theorem entry_points:
  "(status_connected (getStatus (name server) s) \<longrightarrow>
       execute_cached rt server toolName params s = execute_service rt server toolName params s)
   \<and> (\<not> status_connected (getStatus (name server) s)
        \<and> connect rt server
             (emit (Console LogLevel (''[mcp-adapter] Lazy-connecting to '' @ name server @ ''...'')
                      None) s) = (cout, s1)
      \<longrightarrow> (\<forall>e. cout = Inl e \<longrightarrow> execute_cached rt server toolName params s = (Inl e, s1))
          \<and> (\<forall>c e s2. cout = Inr c \<and> listTools rt (name server) s1 = (Inl e, s2)
                \<longrightarrow> execute_cached rt server toolName params s = (Inl e, s2))
          \<and> (\<forall>c tools s2. cout = Inr c \<and> listTools rt (name server) s1 = (Inr tools, s2)
                \<longrightarrow> execute_cached rt server toolName params s
                      = execute_service rt server toolName params s2
                    \<and> map_of (clients s2) (name server) = Some (next_id s)
                    \<and> toolSchemas (heap s2 (next_id s)) = store_schemas tools Map.empty))
   \<and> (map_of (clients s) (name server) = None \<longrightarrow>
        execute_service rt server toolName params s
          = (Inl (Error (''Unknown server: '' @ name server)), s))
   \<and> (\<forall>resp s'. execute_service rt server toolName params s = (Inr resp, s') \<longrightarrow>
        (\<exists>res. callTool rt (name server) toolName params s = (Inr res, s')
            \<and> resp = reshape res \<and> resp_isError resp = isError res
            \<and> (\<exists>txt. resp_content resp = [\<lparr>resp_type = ''text'', resp_text = txt\<rparr>])))
   \<and> (\<forall>resp s'. execute_cached rt server toolName params s = (Inr resp, s') \<longrightarrow>
        (\<exists>txt. resp_content resp = [\<lparr>resp_type = ''text'', resp_text = txt\<rparr>]))"
proof -
  have lazy: "execute_cached rt server toolName params s
                = execute_service rt server toolName params s2
              \<and> map_of (clients s2) (name server) = Some (next_id s)
              \<and> toolSchemas (heap s2 (next_id s)) = store_schemas tools Map.empty"
    if nc: "\<not> status_connected (getStatus (name server) s)"
      and c: "connect rt server
                (emit (Console LogLevel (''[mcp-adapter] Lazy-connecting to '' @ name server @ ''...'')
                         None) s) = (Inr c, s1)"
      and l: "listTools rt (name server) s1 = (Inr tools, s2)" for c tools s2
  proof -
    note f = connect_Inr[OF c]
    have look1: "map_of (clients s1) (name server) = Some (next_id s)" using f(3) by simp
    from f(4) have h: "toolSchemas (heap s1 (next_id s)) = Map.empty" by auto
    note g = listTools_Inr[OF look1 l]
    from execute_cached_lazy(3)[OF nc c refl l] g(1,2) look1 h show ?thesis by simp
  qed
  have unknown: "execute_service rt server toolName params s
          = (Inl (Error (''Unknown server: '' @ name server)), s)"
    if "map_of (clients s) (name server) = None"
    using that by (simp add: execute_service_def callTool_def)
  have shape: "\<exists>res. callTool rt (name server) toolName params s = (Inr res, s')
            \<and> resp = reshape res \<and> resp_isError resp = isError res
            \<and> (\<exists>txt. resp_content resp = [\<lparr>resp_type = ''text'', resp_text = txt\<rparr>])"
    if "execute_service rt server toolName params s = (Inr resp, s')" for resp s'
    using execute_service_Inr[OF that] by (auto simp: reshape_shape)
  have conn: "execute_cached rt server toolName params s
                = execute_service rt server toolName params s"
    if "status_connected (getStatus (name server) s)"
    using that by (rule execute_cached_connected)
  have fail1: "execute_cached rt server toolName params s = (Inl e, s1)"
    if "\<not> status_connected (getStatus (name server) s)"
      and "connect rt server
             (emit (Console LogLevel (''[mcp-adapter] Lazy-connecting to '' @ name server @ ''...'')
                      None) s) = (cout, s1)"
      and "cout = Inl e" for e
    using that by (rule execute_cached_lazy(1))
  have fail2: "execute_cached rt server toolName params s = (Inl e, s2)"
    if "\<not> status_connected (getStatus (name server) s)"
      and "connect rt server
             (emit (Console LogLevel (''[mcp-adapter] Lazy-connecting to '' @ name server @ ''...'')
                      None) s) = (cout, s1)"
      and "cout = Inr c" and "listTools rt (name server) s1 = (Inl e, s2)" for c e s2
    using that by (rule execute_cached_lazy(2))
  have shape': "\<exists>txt. resp_content resp = [\<lparr>resp_type = ''text'', resp_text = txt\<rparr>]"
    if "execute_cached rt server toolName params s = (Inr resp, s')" for resp s'
    using that by (rule execute_cached_Inr)
  from conn fail1 fail2 lazy unknown shape shape' show ?thesis by blast
qed

text \<open>
  Runs: on a new pool the cache entry point connects, discovers and calls; on a connected
  session it only calls, as the service entry point does; when the lazy connect or the
  discovery fails, that failure comes back and no call is made; the service entry point
  on a new pool fails with \<^verbatim>\<open>Unknown server\<close>.
\<close>

theorem entry_points_witness:
  "getStatus (name demo_server) (new_pool idle) = \<lparr>status_connected = False\<rparr>
   \<and> execute_cached scripted demo_server ''weather'' (JObject []) (new_pool idle)
       = execute_service scripted demo_server ''weather'' (JObject [])
           (snd (listTools scripted ''srv''
              (snd (connect scripted demo_server
                 (emit (Console LogLevel ''[mcp-adapter] Lazy-connecting to srv...'' None)
                    (new_pool idle))))))
   \<and> fst (execute_cached scripted demo_server ''weather'' (JObject []) (new_pool idle))
       = Inr \<lparr>resp_content = [\<lparr>resp_type = ''text'', resp_text = ''ok''\<rparr>], resp_isError = None\<rparr>
   \<and> requests (trace (snd (execute_cached scripted demo_server ''weather'' (JObject [])
                              (new_pool idle))))
       = [ClientConnect 0 (demo_transport 0), ClientListTools 0,
          ClientCallTool 0 ''weather'' (JObject [])]
   \<and> status_connected (getStatus (name demo_server) (demo_pool idle))
   \<and> execute_cached scripted demo_server ''weather'' (JObject []) (demo_pool idle)
       = execute_service scripted demo_server ''weather'' (JObject []) (demo_pool idle)
   \<and> requests (trace (snd (execute_service scripted demo_server ''weather'' (JObject [])
                              (demo_pool idle))))
       = [ClientConnect 0 (demo_transport 0), ClientCallTool 0 ''weather'' (JObject [])]
   \<and> fst (execute_cached scripted demo_server ''weather'' (JObject [])
           (new_pool (idle\<lparr>connects := [Inl (Error ''spawn node ENOENT'')]\<rparr>)))
       = Inl (Error ''spawn node ENOENT'')
   \<and> requests (trace (snd (execute_cached scripted demo_server ''weather'' (JObject [])
           (new_pool (idle\<lparr>connects := [Inl (Error ''spawn node ENOENT'')]\<rparr>)))))
       = [ClientConnect 0 (demo_transport 0)]
   \<and> fst (execute_cached scripted demo_server ''weather'' (JObject [])
           (new_pool (idle\<lparr>discoveries := [Inl (Error ''Request timed out'')]\<rparr>)))
       = Inl (Error ''Request timed out'')
   \<and> requests (trace (snd (execute_cached scripted demo_server ''weather'' (JObject [])
           (new_pool (idle\<lparr>discoveries := [Inl (Error ''Request timed out'')]\<rparr>)))))
       = [ClientConnect 0 (demo_transport 0), ClientListTools 0]
   \<and> execute_service scripted demo_server ''weather'' (JObject []) (new_pool idle)
       = (Inl (Error ''Unknown server: srv''), new_pool idle)"
proof -
  let ?s0 = "emit (Console LogLevel (''[mcp-adapter] Lazy-connecting to '' @ name demo_server @ ''...'')
                     None) (new_pool idle)"
  let ?s1 = "snd (connect scripted demo_server ?s0)"
  let ?s2 = "snd (listTools scripted (name demo_server) ?s1)"
  have nc: "\<not> status_connected (getStatus (name demo_server) (new_pool idle))"
    by (simp add: run_defs)
  have c: "connect scripted demo_server ?s0 = (Inr 0, ?s1)" by (simp add: run_defs)
  have l: "listTools scripted (name demo_server) ?s1 = (Inr [], ?s2)" by (simp add: run_defs)
  have yc: "status_connected (getStatus (name demo_server) (demo_pool idle))"
    by (simp add: run_defs)
  note T1 = entry_points [where server = demo_server and s = "new_pool idle" and rt = scripted
      and toolName = "''weather''" and params = "JObject []" and cout = "Inr 0" and ?s1.0 = ?s1]
  from T1 nc c l
  have lazy: "execute_cached scripted demo_server ''weather'' (JObject []) (new_pool idle)
                = execute_service scripted demo_server ''weather'' (JObject []) ?s2"
    by blast
  note T2 = entry_points [where server = demo_server and s = "demo_pool idle" and rt = scripted
      and toolName = "''weather''" and params = "JObject []"]
  from T2 yc
  have direct: "execute_cached scripted demo_server ''weather'' (JObject []) (demo_pool idle)
       = execute_service scripted demo_server ''weather'' (JObject []) (demo_pool idle)"
    by blast
  have nm: "name demo_server = ''srv''" by (simp add: demo_server_def)
  have run:
    "getStatus (name demo_server) (new_pool idle) = \<lparr>status_connected = False\<rparr>"
    "fst (execute_cached scripted demo_server ''weather'' (JObject []) (new_pool idle))
       = Inr \<lparr>resp_content = [\<lparr>resp_type = ''text'', resp_text = ''ok''\<rparr>], resp_isError = None\<rparr>"
    "requests (trace (snd (execute_cached scripted demo_server ''weather'' (JObject [])
                              (new_pool idle))))
       = [ClientConnect 0 (demo_transport 0), ClientListTools 0,
          ClientCallTool 0 ''weather'' (JObject [])]"
    "requests (trace (snd (execute_service scripted demo_server ''weather'' (JObject [])
                              (demo_pool idle))))
       = [ClientConnect 0 (demo_transport 0), ClientCallTool 0 ''weather'' (JObject [])]"
    "fst (execute_cached scripted demo_server ''weather'' (JObject [])
           (new_pool (idle\<lparr>connects := [Inl (Error ''spawn node ENOENT'')]\<rparr>)))
       = Inl (Error ''spawn node ENOENT'')"
    "requests (trace (snd (execute_cached scripted demo_server ''weather'' (JObject [])
           (new_pool (idle\<lparr>connects := [Inl (Error ''spawn node ENOENT'')]\<rparr>)))))
       = [ClientConnect 0 (demo_transport 0)]"
    "fst (execute_cached scripted demo_server ''weather'' (JObject [])
           (new_pool (idle\<lparr>discoveries := [Inl (Error ''Request timed out'')]\<rparr>)))
       = Inl (Error ''Request timed out'')"
    "requests (trace (snd (execute_cached scripted demo_server ''weather'' (JObject [])
           (new_pool (idle\<lparr>discoveries := [Inl (Error ''Request timed out'')]\<rparr>)))))
       = [ClientConnect 0 (demo_transport 0), ClientListTools 0]"
    "execute_service scripted demo_server ''weather'' (JObject []) (new_pool idle)
       = (Inl (Error ''Unknown server: srv''), new_pool idle)"
    by (simp_all add: run_defs execute_cached_def execute_service_def reshape_def ok_result_def
          warnOnSchemaViolations_def)
  from lazy direct yc run show ?thesis by (simp add: nm)
qed

text \<open>
  Claim C9 as stated fails for the entry point the service registers. After \<^verbatim>\<open>closeAll\<close>
  the server is not connected, and the entry point fails with \<^verbatim>\<open>Unknown server\<close> without
  any request. On a session marked disconnected its first request is the call on the old
  client; the reconnect follows the failure, and no discovery is made. And a result
  without an \<^verbatim>\<open>isError\<close> flag is returned without one.
\<close>

theorem entry_points_counterexample:
  "getStatus ''srv'' (snd (closeAll scripted (demo_pool idle))) = \<lparr>status_connected = False\<rparr>
   \<and> execute_service scripted demo_server ''weather'' (JObject [])
         (snd (closeAll scripted (demo_pool idle)))
       = (Inl (Error ''Unknown server: srv''), snd (closeAll scripted (demo_pool idle)))
   \<and> getStatus ''srv''
         (markDisconnected ''srv'' (demo_pool (idle\<lparr>calls := [([], Inl (Error ''Not connected''))]\<rparr>)))
       = \<lparr>status_connected = False\<rparr>
   \<and> requests (trace (snd (execute_service scripted demo_server ''weather'' (JObject [])
         (markDisconnected ''srv''
            (demo_pool (idle\<lparr>calls := [([], Inl (Error ''Not connected''))]\<rparr>))))))
       = [ClientConnect 0 (demo_transport 0), ClientCallTool 0 ''weather'' (JObject []),
          TransportClose 0, ClientConnect 1 (demo_transport 1),
          ClientCallTool 1 ''weather'' (JObject [])]
   \<and> fst (execute_service scripted demo_server ''weather'' (JObject []) (demo_pool idle))
       = Inr \<lparr>resp_content = [\<lparr>resp_type = ''text'', resp_text = ''ok''\<rparr>], resp_isError = None\<rparr>"
  by (simp add: run_defs execute_service_def reshape_def ok_result_def warnOnSchemaViolations_def
        isConnectionError_def)

end
